theory Spec2Isabelle
  imports Main "HOL-Library.Word" "HOL-Library.Signed_Division"
begin

section \<open>The BFS scheduler core of kernel/sched_bfs.c\<close>

text \<open>
  A shallow embedding of the parts of \<^verbatim>\<open>kernel/sched_bfs.c\<close> that queue, select,
  preempt and account tasks. The build modelled is the one of the target board:
  \<^verbatim>\<open>CONFIG_SMP\<close> and \<^verbatim>\<open>CONFIG_HOTPLUG_CPU\<close> set, \<^verbatim>\<open>CONFIG_NUMA\<close>,
  \<^verbatim>\<open>CONFIG_SCHED_MC\<close> and \<^verbatim>\<open>CONFIG_SCHED_SMT\<close> unset, a 32-bit \<^verbatim>\<open>int\<close>, \<^verbatim>\<open>long\<close>
  and \<^verbatim>\<open>unsigned long\<close>, and signed arithmetic that wraps (the kernel is built with
  \<^verbatim>\<open>-fno-strict-overflow\<close>).

  Pointers to tasks are task identifiers, the task structures live in a store
  (\<open>tasks\<close>), and the intrusive \<^verbatim>\<open>run_list\<close> of a priority band is the list of the
  identifiers linked into it, head first. A C \<^verbatim>\<open>int\<close> is an \<open>int\<close> with \<open>wrap32\<close>
  applied wherever the source computes, a \<^verbatim>\<open>u64\<close> is a 64-bit word. Locks, memory
  barriers, tracing, scheduler statistics and the inter-processor interrupt of
  \<^verbatim>\<open>resched_task\<close> have no counterpart: every function is read as it runs with
  \<^verbatim>\<open>grq.lock\<close> held.
\<close>

unbundle bit_operations_syntax

subsection \<open>Machine integers\<close>

type_synonym u64 = "64 word"
type_synonym ulong = "32 word"
type_synonym tid = nat
type_synonym cpumask = "nat set"

definition wrap32 :: "int \<Rightarrow> int" where
  "wrap32 x = sint (word_of_int x :: 32 word)"

subsection \<open>Data\<close>

text \<open>The scheduling policies; the source only compares and copies them.\<close>

datatype policy =
  SCHED_NORMAL | SCHED_FIFO | SCHED_RR | SCHED_BATCH | SCHED_ISO | SCHED_IDLEPRIO

text \<open>
  The scheduler-owned fields of \<^verbatim>\<open>struct task_struct\<close>. \<open>cpu\<close> is
  \<^verbatim>\<open>task_thread_info(p)->cpu\<close>, \<open>need_resched\<close> is the thread flag
  \<^verbatim>\<open>TIF_NEED_RESCHED\<close>. The last four fields stand for the predicates of the kernel
  headers that \<^verbatim>\<open>idleprio_suitable\<close> and \<^verbatim>\<open>activate_task\<close> read: \<^verbatim>\<open>freezing(p)\<close>,
  \<^verbatim>\<open>signal_pending(p)\<close>, \<^verbatim>\<open>task_contributes_to_load(p)\<close> and
  \<^verbatim>\<open>p->flags & PF_EXITING\<close>.
\<close>

record task_struct =
  state :: "32 word"
  prio :: int
  static_prio :: int
  normal_prio :: int
  rt_priority :: int
  policy :: policy
  deadline :: u64
  time_slice :: int
  last_ran :: u64
  cpus_allowed :: cpumask
  oncpu :: bool
  cpu :: nat
  need_resched :: bool
  sched_reset_on_fork :: bool
  sched_time :: u64
  stime_pc :: ulong
  utime_pc :: ulong
  freezing :: bool
  signal_pending :: bool
  task_contributes_to_load :: bool
  pf_exiting :: bool

text \<open>\<^verbatim>\<open>struct global_rq\<close>: \<open>queue\<close> and \<open>prio_bitmap\<close> are indexed by priority.\<close>

record global_rq =
  nr_running :: ulong
  nr_uninterruptible :: ulong
  nr_switches :: u64
  queue :: "int \<Rightarrow> tid list"
  prio_bitmap :: "int \<Rightarrow> bool"
  qnr :: ulong
  cpu_idle_map :: cpumask
  idle_cpus :: int
  niffies :: u64
  last_jiffy :: ulong
  iso_ticks :: int
  iso_refractory :: int

text \<open>\<^verbatim>\<open>struct rq\<close>, the per-CPU runqueue.\<close>

record rq =
  curr :: tid
  idle :: tid
  rq_deadline :: u64
  rq_policy :: policy
  rq_time_slice :: int
  rq_last_ran :: u64
  rq_prio :: int
  rq_running :: int
  timekeep_clock :: u64
  user_pc :: ulong
  nice_pc :: ulong
  irq_pc :: ulong
  softirq_pc :: ulong
  system_pc :: ulong
  iowait_pc :: ulong
  idle_pc :: ulong
  nr_iowait :: int
  rq_cpu :: nat
  cpu_locality :: "nat \<Rightarrow> ulong"
  last_niffy :: u64
  clock :: u64
  old_clock :: u64
  last_tick :: u64
  dither :: int

text \<open>
  The whole scheduler: the constants of the kernel headers and of the build that the
  source names but does not define (\<open>MAX_RT_PRIO\<close>, \<open>PRIO_LIMIT\<close>, \<open>HZ\<close>, \<open>NR_CPUS\<close>,
  \<open>TASK_RUNNING\<close>, \<open>WF_SYNC\<close>), the tunables, the table \<^verbatim>\<open>prio_ratios\<close>, the global runqueue
  \<^verbatim>\<open>grq\<close>, the per-CPU \<^verbatim>\<open>runqueues\<close>, the task store, and what the scheduler reads
  from the rest of the kernel: \<^verbatim>\<open>jiffies\<close>, \<^verbatim>\<open>sched_clock_cpu(cpu)\<close>, \<^verbatim>\<open>cpu_online_map\<close>
  and \<^verbatim>\<open>num_online_cpus()\<close>.
\<close>

record sched_state =
  MAX_RT_PRIO :: int
  PRIO_LIMIT :: int
  HZ :: int
  NR_CPUS :: nat
  TASK_RUNNING :: "32 word"
  WF_SYNC :: "32 word"
  rr_interval :: int
  sched_iso_cpu :: int
  prio_ratios :: "int list"
  grq :: global_rq
  runqueues :: "nat \<Rightarrow> rq"
  tasks :: "tid \<Rightarrow> task_struct"
  jiffies :: ulong
  sched_clock_cpu :: "nat \<Rightarrow> u64"
  cpu_online_map :: cpumask

subsection \<open>Priority constants and conversions\<close>

text \<open>
  Modelled from the spec: the header that defines the bands is not part of the source.
  The ISO band is the single value \<open>MAX_RT_PRIO\<close>, NORMAL and BATCH share
  \<open>MAX_RT_PRIO + 1\<close>, IDLEPRIO is \<open>MAX_RT_PRIO + 2\<close>.
\<close>

definition ISO_PRIO :: "sched_state \<Rightarrow> int" where
  "ISO_PRIO s = MAX_RT_PRIO s"

definition NORMAL_PRIO :: "sched_state \<Rightarrow> int" where
  "NORMAL_PRIO s = MAX_RT_PRIO s + 1"

definition IDLE_PRIO :: "sched_state \<Rightarrow> int" where
  "IDLE_PRIO s = MAX_RT_PRIO s + 2"

definition rt_prio :: "sched_state \<Rightarrow> int \<Rightarrow> bool" where
  "rt_prio s pr = (pr < MAX_RT_PRIO s)"

definition rt_task :: "sched_state \<Rightarrow> task_struct \<Rightarrow> bool" where
  "rt_task s p = rt_prio s (prio p)"

definition rt_queue :: "sched_state \<Rightarrow> rq \<Rightarrow> bool" where
  "rt_queue s r = rt_prio s (rq_prio r)"

definition batch_task :: "task_struct \<Rightarrow> bool" where
  "batch_task p = (policy p = SCHED_BATCH)"

definition is_rt_policy :: "policy \<Rightarrow> bool" where
  "is_rt_policy pol = (pol = SCHED_FIFO \<or> pol = SCHED_RR)"

definition has_rt_policy :: "task_struct \<Rightarrow> bool" where
  "has_rt_policy p = is_rt_policy (policy p)"

definition idleprio_task :: "task_struct \<Rightarrow> bool" where
  "idleprio_task p = (policy p = SCHED_IDLEPRIO)"

definition iso_task :: "task_struct \<Rightarrow> bool" where
  "iso_task p = (policy p = SCHED_ISO)"

definition iso_queue :: "rq \<Rightarrow> bool" where
  "iso_queue r = (rq_policy r = SCHED_ISO)"

definition NICE_TO_PRIO :: "sched_state \<Rightarrow> int \<Rightarrow> int" where
  "NICE_TO_PRIO s nice = wrap32 (wrap32 (MAX_RT_PRIO s + nice) + 20)"

definition PRIO_TO_NICE :: "sched_state \<Rightarrow> int \<Rightarrow> int" where
  "PRIO_TO_NICE s pr = wrap32 (wrap32 (pr - MAX_RT_PRIO s) - 20)"

definition TASK_NICE :: "sched_state \<Rightarrow> task_struct \<Rightarrow> int" where
  "TASK_NICE s p = PRIO_TO_NICE s (static_prio p)"

definition USER_PRIO :: "sched_state \<Rightarrow> int \<Rightarrow> int" where
  "USER_PRIO s pr = wrap32 (pr - MAX_RT_PRIO s)"

definition TASK_USER_PRIO :: "sched_state \<Rightarrow> task_struct \<Rightarrow> int" where
  "TASK_USER_PRIO s p = USER_PRIO s (static_prio p)"

subsection \<open>Time scales\<close>

text \<open>The shifts of the source: \<^verbatim>\<open>US_TO_NS\<close> shifts right, as \<^verbatim>\<open>NS_TO_US\<close> does.\<close>

definition JIFFIES_TO_NS :: "sched_state \<Rightarrow> int \<Rightarrow> int" where
  "JIFFIES_TO_NS s t = wrap32 (t * (1000000000 sdiv HZ s))"

definition HALF_JIFFY_US :: "sched_state \<Rightarrow> int" where
  "HALF_JIFFY_US s = (1000000 sdiv HZ s) sdiv 2"

definition MS_TO_NS :: "int \<Rightarrow> int" where
  "MS_TO_NS t = wrap32 (t * 2 ^ 20)"

definition MS_TO_US :: "int \<Rightarrow> int" where
  "MS_TO_US t = wrap32 (t * 2 ^ 10)"

definition US_TO_NS :: "int \<Rightarrow> int" where
  "US_TO_NS t = t div 2 ^ 10"

definition NS_TO_US :: "int \<Rightarrow> int" where
  "NS_TO_US t = t div 2 ^ 10"

definition RESCHED_US :: int where
  "RESCHED_US = 100"

definition timeslice :: "sched_state \<Rightarrow> int" where
  "timeslice s = MS_TO_US (rr_interval s)"

subsection \<open>The clock\<close>

definition niffy_diff :: "sched_state \<Rightarrow> int \<Rightarrow> int \<Rightarrow> int" where
  "niffy_diff s niff_diff jiff_diff =
     (let max_diff = uint (word_of_int (JIFFIES_TO_NS s (wrap32 (jiff_diff + 1))) :: ulong)
      in if niff_diff < 1 \<or> niff_diff > max_diff then US_TO_NS 1 else niff_diff)"

definition cpu_rq :: "sched_state \<Rightarrow> nat \<Rightarrow> rq" where
  "cpu_rq s c = runqueues s c"

definition task_cpu :: "task_struct \<Rightarrow> nat" where
  "task_cpu p = cpu p"

definition task_rq :: "sched_state \<Rightarrow> tid \<Rightarrow> nat" where
  "task_rq s p = task_cpu (tasks s p)"

definition update_rq_clock :: "sched_state \<Rightarrow> nat \<Rightarrow> sched_state" where
  "update_rq_clock s c =
     s\<lparr>runqueues := (runqueues s)(c := (runqueues s c)\<lparr>clock := sched_clock_cpu s c\<rparr>)\<rparr>"

text \<open>
  \<^verbatim>\<open>update_clocks\<close>, the \<^verbatim>\<open>CONFIG_SMP\<close> version. \<open>ndiff\<close> is an \<^verbatim>\<open>s64\<close> computed from
  \<^verbatim>\<open>u64\<close> differences, \<open>jdiff\<close> a \<^verbatim>\<open>long\<close> computed from \<^verbatim>\<open>unsigned long\<close> ones.
\<close>

definition update_clocks :: "sched_state \<Rightarrow> nat \<Rightarrow> sched_state" where
  "update_clocks s c =
     (let s1 = update_rq_clock s c;
          r = runqueues s1 c;
          g = grq s1;
          ndiff0 = clock r - old_clock r;
          r1 = r\<lparr>old_clock := clock r\<rparr>;
          ndiff1 = sint (ndiff0 - (niffies g - last_niffy r1));
          jdiff = sint (jiffies s1 - last_jiffy g);
          ndiff = niffy_diff s1 ndiff1 jdiff;
          g1 = g\<lparr>last_jiffy := last_jiffy g + word_of_int jdiff\<rparr>;
          g2 = g1\<lparr>niffies := niffies g1 + word_of_int ndiff\<rparr>;
          r2 = r1\<lparr>last_niffy := niffies g2\<rparr>
      in s1\<lparr>grq := g2, runqueues := (runqueues s1)(c := r2)\<rparr>)"

subsection \<open>The global runqueue\<close>

definition deadline_before :: "u64 \<Rightarrow> u64 \<Rightarrow> bool" where
  "deadline_before dl t = (dl < t)"

definition deadline_after :: "u64 \<Rightarrow> u64 \<Rightarrow> bool" where
  "deadline_after dl t = (dl > t)"

text \<open>
  \<^verbatim>\<open>task_queued\<close>: the task's \<^verbatim>\<open>run_list\<close> node is linked, that is, the task is on the
  list of some band.
\<close>

definition task_queued :: "sched_state \<Rightarrow> tid \<Rightarrow> bool" where
  "task_queued s p = (\<exists>b \<in> set [0 ..< nat (PRIO_LIMIT s)]. p \<in> set (queue (grq s) (int b)))"

definition task_running :: "task_struct \<Rightarrow> bool" where
  "task_running p = oncpu p"

text \<open>
  \<^verbatim>\<open>dequeue_task\<close>: \<^verbatim>\<open>list_del_init\<close> unlinks the node from the list it is on,
  whichever band that is; the emptiness test and the bit are those of \<^verbatim>\<open>p->prio\<close>.
\<close>

definition dequeue_task :: "sched_state \<Rightarrow> tid \<Rightarrow> sched_state" where
  "dequeue_task s p =
     (let g = grq s;
          q = (\<lambda>b. removeAll p (queue g b));
          pr = prio (tasks s p);
          bm = (if q pr = [] then (prio_bitmap g)(pr := False) else prio_bitmap g)
      in s\<lparr>grq := g\<lparr>queue := q, prio_bitmap := bm\<rparr>\<rparr>)"

definition idleprio_suitable :: "task_struct \<Rightarrow> bool" where
  "idleprio_suitable p =
     (\<not> freezing p \<and> \<not> signal_pending p \<and> \<not> task_contributes_to_load p \<and> \<not> pf_exiting p)"

definition isoprio_suitable :: "sched_state \<Rightarrow> bool" where
  "isoprio_suitable s = (iso_refractory (grq s) = 0)"

definition enqueue_task :: "sched_state \<Rightarrow> tid \<Rightarrow> sched_state" where
  "enqueue_task s p =
     (let t = tasks s p;
          t1 = (if \<not> rt_task s t then
                  (if (idleprio_task t \<and> idleprio_suitable t) \<or> (iso_task t \<and> isoprio_suitable s)
                   then t\<lparr>prio := normal_prio t\<rparr>
                   else t\<lparr>prio := NORMAL_PRIO s\<rparr>)
                else t);
          g = grq s;
          bm = (prio_bitmap g)(prio t1 := True);
          q = (queue g)(prio t1 := queue g (prio t1) @ [p])
      in s\<lparr>tasks := (tasks s)(p := t1), grq := g\<lparr>prio_bitmap := bm, queue := q\<rparr>\<rparr>)"

definition enqueue_task_head :: "sched_state \<Rightarrow> tid \<Rightarrow> sched_state" where
  "enqueue_task_head s p =
     (let pr = prio (tasks s p); g = grq s
      in s\<lparr>grq := g\<lparr>prio_bitmap := (prio_bitmap g)(pr := True),
                      queue := (queue g)(pr := p # queue g pr)\<rparr>\<rparr>)"

definition requeue_task :: "sched_state \<Rightarrow> tid \<Rightarrow> sched_state" where
  "requeue_task s p = s"

definition task_prio_ratio :: "sched_state \<Rightarrow> task_struct \<Rightarrow> int" where
  "task_prio_ratio s p = prio_ratios s ! nat (TASK_USER_PRIO s p)"

definition task_timeslice :: "sched_state \<Rightarrow> task_struct \<Rightarrow> int" where
  "task_timeslice s p = wrap32 (rr_interval s * task_prio_ratio s p) sdiv 128"

definition inc_qnr :: "sched_state \<Rightarrow> sched_state" where
  "inc_qnr s = s\<lparr>grq := (grq s)\<lparr>qnr := qnr (grq s) + 1\<rparr>\<rparr>"

definition dec_qnr :: "sched_state \<Rightarrow> sched_state" where
  "dec_qnr s = s\<lparr>grq := (grq s)\<lparr>qnr := qnr (grq s) - 1\<rparr>\<rparr>"

definition queued_notrunning :: "sched_state \<Rightarrow> ulong" where
  "queued_notrunning s = qnr (grq s)"

subsection \<open>The idle map and the choice of an idle CPU\<close>

definition set_cpuidle_map :: "sched_state \<Rightarrow> nat \<Rightarrow> sched_state" where
  "set_cpuidle_map s c =
     s\<lparr>grq := (grq s)\<lparr>cpu_idle_map := insert c (cpu_idle_map (grq s)), idle_cpus := 1\<rparr>\<rparr>"

definition clear_cpuidle_map :: "sched_state \<Rightarrow> nat \<Rightarrow> sched_state" where
  "clear_cpuidle_map s c =
     (let m = cpu_idle_map (grq s) - {c}
      in s\<lparr>grq := (grq s)\<lparr>cpu_idle_map := m,
                            idle_cpus := (if m = {} then 0 else idle_cpus (grq s))\<rparr>\<rparr>)"

definition suitable_idle_cpus :: "sched_state \<Rightarrow> task_struct \<Rightarrow> bool" where
  "suitable_idle_cpus s p =
     (if idle_cpus (grq s) = 0 then False
      else cpus_allowed p \<inter> cpu_idle_map (grq s) \<noteq> {})"

text \<open>
  \<^verbatim>\<open>resched_task\<close>: the flag is set unless it is set already. The cross-CPU interrupt
  that follows on SMP is outside this model.
\<close>

definition resched_task :: "sched_state \<Rightarrow> tid \<Rightarrow> sched_state" where
  "resched_task s p =
     (if need_resched (tasks s p) then s
      else s\<lparr>tasks := (tasks s)(p := (tasks s p)\<lparr>need_resched := True\<rparr>)\<rparr>)"

definition set_tsk_need_resched :: "sched_state \<Rightarrow> tid \<Rightarrow> sched_state" where
  "set_tsk_need_resched s p = s\<lparr>tasks := (tasks s)(p := (tasks s p)\<lparr>need_resched := True\<rparr>)\<rparr>"

definition CPUIDLE_DIFF_CPU :: ulong where
  "CPUIDLE_DIFF_CPU = 8"

text \<open>
  The cpumask operations, which the source uses and the kernel headers define. A mask
  is the set of its CPUs: \<^verbatim>\<open>cpus_and\<close> is the intersection, \<^verbatim>\<open>cpus_intersects\<close> its
  being non-empty, \<^verbatim>\<open>cpu_isset\<close> membership. \<^verbatim>\<open>for_each_cpu_mask\<close> visits the CPUs
  of the mask below \<open>NR_CPUS\<close> in increasing order, \<^verbatim>\<open>cpus_weight\<close> counts them, and
  \<^verbatim>\<open>next_cpu(n, mask)\<close> is the first CPU of the mask above \<open>n\<close>, or \<open>NR_CPUS\<close>.
  \<^verbatim>\<open>nr_cpu_ids\<close> is taken equal to \<open>NR_CPUS\<close>.
\<close>

definition cpus_of_mask :: "sched_state \<Rightarrow> cpumask \<Rightarrow> nat list" where
  "cpus_of_mask s m = filter (\<lambda>c. c \<in> m) [0 ..< NR_CPUS s]"

definition next_cpu :: "sched_state \<Rightarrow> int \<Rightarrow> cpumask \<Rightarrow> nat" where
  "next_cpu s n m =
     (case filter (\<lambda>c. c \<in> m) [nat (n + 1) ..< NR_CPUS s] of
        [] \<Rightarrow> NR_CPUS s
      | c # _ \<Rightarrow> c)"

definition cpus_weight :: "sched_state \<Rightarrow> cpumask \<Rightarrow> int" where
  "cpus_weight s m = int (length (cpus_of_mask s m))"

definition best_idle_cpu_tmp :: "sched_state \<Rightarrow> cpumask \<Rightarrow> int \<Rightarrow> nat" where
  "best_idle_cpu_tmp s m cpu_tmp =
     (let c = next_cpu s cpu_tmp m
      in if c \<ge> NR_CPUS s then next_cpu s (- 1) m else c)"

definition best_idle_ranking :: "rq \<Rightarrow> nat \<Rightarrow> ulong" where
  "best_idle_ranking r c = (if cpu_locality r c > 2 then CPUIDLE_DIFF_CPU else 0)"

text \<open>
  The \<^verbatim>\<open>do ... while (--iterate > 0)\<close> loop of \<^verbatim>\<open>resched_best_idle\<close>; the result is
  \<open>best_cpu\<close>.
\<close>

function best_idle_loop ::
  "sched_state \<Rightarrow> rq \<Rightarrow> cpumask \<Rightarrow> int \<Rightarrow> nat \<Rightarrow> ulong \<Rightarrow> int \<Rightarrow> nat" where
  "best_idle_loop s r m cpu_tmp best_cpu best_ranking iterate =
     (if best_idle_ranking r (best_idle_cpu_tmp s m cpu_tmp) < best_ranking then
        (if best_idle_ranking r (best_idle_cpu_tmp s m cpu_tmp) = 0
         then best_idle_cpu_tmp s m cpu_tmp
         else if iterate - 1 > 0
           then best_idle_loop s r m (int (best_idle_cpu_tmp s m cpu_tmp))
                  (best_idle_cpu_tmp s m cpu_tmp)
                  (best_idle_ranking r (best_idle_cpu_tmp s m cpu_tmp)) (iterate - 1)
           else best_idle_cpu_tmp s m cpu_tmp)
      else if iterate - 1 > 0
        then best_idle_loop s r m (int (best_idle_cpu_tmp s m cpu_tmp)) best_cpu best_ranking
               (iterate - 1)
        else best_cpu)"
  by pat_completeness auto
termination
  by (relation "measure (\<lambda>(s, r, m, cpu_tmp, best_cpu, best_ranking, iterate). nat iterate)") auto

declare best_idle_loop.simps [simp del]

definition resched_best_idle :: "sched_state \<Rightarrow> tid \<Rightarrow> sched_state" where
  "resched_best_idle s p =
     (let tmpmask = cpus_allowed (tasks s p) \<inter> cpu_idle_map (grq s);
          iterate = cpus_weight s tmpmask;
          best_cpu = task_cpu (tasks s p);
          cpu_tmp = int best_cpu - 1;
          r = cpu_rq s best_cpu;
          best = best_idle_loop s r tmpmask cpu_tmp best_cpu (- 1) iterate
      in resched_task s (curr (cpu_rq s best)))"

definition resched_suitable_idle :: "sched_state \<Rightarrow> tid \<Rightarrow> sched_state" where
  "resched_suitable_idle s p =
     (if suitable_idle_cpus s (tasks s p) then resched_best_idle s p else s)"

text \<open>
  \<^verbatim>\<open>cache_distance(task_rq, rq, p)\<close>; the two runqueues are given by their CPU
  numbers, \<^verbatim>\<open>cpu_of(task_rq)\<close> is the \<^verbatim>\<open>cpu\<close> field of the first.
\<close>

definition cpu_of :: "sched_state \<Rightarrow> nat \<Rightarrow> nat" where
  "cpu_of s r = rq_cpu (runqueues s r)"

definition cache_distance :: "sched_state \<Rightarrow> nat \<Rightarrow> nat \<Rightarrow> task_struct \<Rightarrow> int" where
  "cache_distance s trq r p =
     (let locality = sint (cpu_locality (runqueues s r) (cpu_of s trq) - 2)
      in if locality > 0 then wrap32 (task_timeslice s p * 2 ^ nat locality) else 0)"

subsection \<open>Activation\<close>

definition activate_idle_task :: "sched_state \<Rightarrow> tid \<Rightarrow> sched_state" where
  "activate_idle_task s p =
     (let s1 = enqueue_task_head s p;
          s2 = s1\<lparr>grq := (grq s1)\<lparr>nr_running := nr_running (grq s1) + 1\<rparr>\<rparr>
      in inc_qnr s2)"

text \<open>\<^verbatim>\<open>normal_prio(p)\<close>, the function; \<open>normal_prio\<close> is the field it is cached in.\<close>

definition normal_prio_fn :: "sched_state \<Rightarrow> task_struct \<Rightarrow> int" where
  "normal_prio_fn s p =
     (if has_rt_policy p then wrap32 (wrap32 (MAX_RT_PRIO s - 1) - rt_priority p)
      else if idleprio_task p then IDLE_PRIO s
      else if iso_task p then ISO_PRIO s
      else NORMAL_PRIO s)"

text \<open>\<^verbatim>\<open>effective_prio\<close> writes \<^verbatim>\<open>p->normal_prio\<close> and returns the priority.\<close>

definition effective_prio :: "sched_state \<Rightarrow> task_struct \<Rightarrow> task_struct \<times> int" where
  "effective_prio s p =
     (let p1 = p\<lparr>normal_prio := normal_prio_fn s p\<rparr>
      in if \<not> rt_prio s (prio p1) then (p1, normal_prio p1) else (p1, prio p1))"

definition activate_task :: "sched_state \<Rightarrow> tid \<Rightarrow> nat \<Rightarrow> sched_state" where
  "activate_task s p r =
     (let s1 = update_clocks s r;
          (t1, pr) = effective_prio s1 (tasks s1 p);
          s2 = s1\<lparr>tasks := (tasks s1)(p := t1\<lparr>prio := pr\<rparr>)\<rparr>;
          s3 = (if task_contributes_to_load (tasks s2 p)
                then s2\<lparr>grq := (grq s2)\<lparr>nr_uninterruptible := nr_uninterruptible (grq s2) - 1\<rparr>\<rparr>
                else s2);
          s4 = enqueue_task s3 p;
          s5 = s4\<lparr>grq := (grq s4)\<lparr>nr_running := nr_running (grq s4) + 1\<rparr>\<rparr>
      in inc_qnr s5)"

definition deactivate_task :: "sched_state \<Rightarrow> tid \<Rightarrow> sched_state" where
  "deactivate_task s p =
     (let s1 = (if task_contributes_to_load (tasks s p)
                then s\<lparr>grq := (grq s)\<lparr>nr_uninterruptible := nr_uninterruptible (grq s) + 1\<rparr>\<rparr>
                else s)
      in s1\<lparr>grq := (grq s1)\<lparr>nr_running := nr_running (grq s1) - 1\<rparr>\<rparr>)"

definition set_task_cpu :: "sched_state \<Rightarrow> tid \<Rightarrow> nat \<Rightarrow> sched_state" where
  "set_task_cpu s p c = s\<lparr>tasks := (tasks s)(p := (tasks s p)\<lparr>cpu := c\<rparr>)\<rparr>"

definition take_task :: "sched_state \<Rightarrow> nat \<Rightarrow> tid \<Rightarrow> sched_state" where
  "take_task s r p = dec_qnr (dequeue_task (set_task_cpu s p (cpu_of s r)) p)"

definition return_task :: "sched_state \<Rightarrow> tid \<Rightarrow> bool \<Rightarrow> sched_state" where
  "return_task s p deactivate =
     (if deactivate then deactivate_task s p else enqueue_task (inc_qnr s) p)"

subsection \<open>Preemption\<close>

definition rq_idle :: "sched_state \<Rightarrow> rq \<Rightarrow> bool" where
  "rq_idle s r = (rq_prio r = PRIO_LIMIT s)"

definition can_preempt :: "task_struct \<Rightarrow> int \<Rightarrow> u64 \<Rightarrow> policy \<Rightarrow> bool" where
  "can_preempt p pr dl pol =
     (if prio p < pr then True
      else if prio p > pr then False
      else if \<not> deadline_before (deadline p) dl then False
      else True)"

definition online_cpus :: "sched_state \<Rightarrow> task_struct \<Rightarrow> bool" where
  "online_cpus s p = (cpu_online_map s \<inter> cpus_allowed p \<noteq> {})"

definition needs_other_cpu :: "task_struct \<Rightarrow> nat \<Rightarrow> bool" where
  "needs_other_cpu p c = (if c \<notin> cpus_allowed p then True else False)"

text \<open>
  The \<^verbatim>\<open>for_each_cpu_mask\<close> loop of \<^verbatim>\<open>try_preempt\<close> over the CPUs still to visit;
  the accumulator is \<open>(latest_deadline, highest_prio, highest_prio_rq)\<close>.
\<close>

fun preempt_scan ::
  "sched_state \<Rightarrow> task_struct \<Rightarrow> nat \<Rightarrow> nat list \<Rightarrow> u64 \<times> int \<times> nat \<Rightarrow> u64 \<times> int \<times> nat" where
  "preempt_scan s p this_rq [] acc = acc"
| "preempt_scan s p this_rq (c # cs) (latest_deadline, highest_prio, highest_prio_rq) =
     (let r = cpu_rq s c
      in if rq_prio r < highest_prio
         then preempt_scan s p this_rq cs (latest_deadline, highest_prio, highest_prio_rq)
         else
           (let offset_deadline = rq_deadline r - word_of_int (cache_distance s this_rq c p)
            in if rq_prio r > highest_prio \<or>
                  (rq_prio r = highest_prio \<and> deadline_after offset_deadline latest_deadline)
               then preempt_scan s p this_rq cs (offset_deadline, rq_prio r, c)
               else preempt_scan s p this_rq cs (latest_deadline, highest_prio, highest_prio_rq)))"

definition highest_prio_scan :: "sched_state \<Rightarrow> tid \<Rightarrow> nat \<Rightarrow> u64 \<times> int \<times> nat" where
  "highest_prio_scan s p this_rq =
     preempt_scan s (tasks s p) this_rq
       (cpus_of_mask s (cpu_online_map s \<inter> cpus_allowed (tasks s p))) (0, - 1, this_rq)"

definition try_preempt :: "sched_state \<Rightarrow> tid \<Rightarrow> nat \<Rightarrow> sched_state" where
  "try_preempt s p this_rq =
     (if suitable_idle_cpus s (tasks s p) then resched_best_idle s p
      else if policy (tasks s p) = SCHED_IDLEPRIO then s
      else if \<not> online_cpus s (tasks s p) then s
      else
        (let (latest_deadline, highest_prio, highest_prio_rq) = highest_prio_scan s p this_rq
         in if \<not> can_preempt (tasks s p) highest_prio
                   (rq_deadline (cpu_rq s highest_prio_rq)) (rq_policy (cpu_rq s highest_prio_rq))
            then s
            else resched_task s (curr (cpu_rq s highest_prio_rq))))"

text \<open>
  The ranking of the scan. \<open>rq_offset_deadline\<close> is the \<^verbatim>\<open>offset_deadline\<close> that the loop
  computes for a CPU: the deadline of its runqueue less the cache distance from the waker's
  runqueue. Following section 4.5 of the specification, a CPU is busier than another when
  its running task has the higher priority number or, at equal priority, the later offset
  deadline.
\<close>

definition rq_offset_deadline :: "sched_state \<Rightarrow> task_struct \<Rightarrow> nat \<Rightarrow> nat \<Rightarrow> u64" where
  "rq_offset_deadline s p this_rq c =
     rq_deadline (cpu_rq s c) - word_of_int (cache_distance s this_rq c p)"

definition busier_rq :: "sched_state \<Rightarrow> task_struct \<Rightarrow> nat \<Rightarrow> nat \<Rightarrow> nat \<Rightarrow> bool" where
  "busier_rq s p this_rq a b =
     (rq_prio (cpu_rq s a) > rq_prio (cpu_rq s b) \<or>
      (rq_prio (cpu_rq s a) = rq_prio (cpu_rq s b) \<and>
       rq_offset_deadline s p this_rq a > rq_offset_deadline s p this_rq b))"

text \<open>
  The order on pairs of a priority and an offset deadline under which the loop replaces
  its accumulator.
\<close>

definition scan_better :: "int \<times> u64 \<Rightarrow> int \<times> u64 \<Rightarrow> bool" where
  "scan_better a b = (fst a > fst b \<or> (fst a = fst b \<and> snd a > snd b))"

subsection \<open>Deadlines and timeslices\<close>

text \<open>
  Modelled from the spec: \<open>PRIO_RANGE\<close>, the length of \<^verbatim>\<open>prio_ratios\<close>, which the
  source names but does not define, is 40 (\<^verbatim>\<open>prio_ratios[0..39]\<close>, nice -20 at index 0
  and nice +19 at index 39).
\<close>

definition PRIO_RANGE :: nat where
  "PRIO_RANGE = 40"

text \<open>
  The table \<^verbatim>\<open>prio_ratios\<close> as \<^verbatim>\<open>sched_init\<close> fills it: the loop
  \<^verbatim>\<open>for (i = 1; i < PRIO_RANGE; i++)\<close> over the zeroed static array whose first entry
  has been set to 128.
\<close>

function prio_ratios_loop :: "nat \<Rightarrow> int list \<Rightarrow> int list" where
  "prio_ratios_loop i pr =
     (if i < PRIO_RANGE
      then prio_ratios_loop (i + 1) (pr[i := wrap32 (pr ! (i - 1) * 11) sdiv 10])
      else pr)"
  by pat_completeness auto
termination
  by (relation "measure (\<lambda>(i, pr). PRIO_RANGE - i)") auto

declare prio_ratios_loop.simps [simp del]

definition sched_init_prio_ratios :: "int list" where
  "sched_init_prio_ratios = prio_ratios_loop 1 ((replicate PRIO_RANGE 0)[0 := 128])"

text \<open>
  \<^verbatim>\<open>prio_deadline_diff\<close> multiplies in \<^verbatim>\<open>int\<close> and returns the product as a \<^verbatim>\<open>u64\<close>.
  An index outside the table is outside the model: the theorems below keep
  \<open>user_prio\<close> within \<open>0..39\<close>.
\<close>

definition prio_deadline_diff :: "sched_state \<Rightarrow> int \<Rightarrow> u64" where
  "prio_deadline_diff s user_prio =
     word_of_int (wrap32 (wrap32 (prio_ratios s ! nat user_prio * rr_interval s) *
                          (MS_TO_NS 1 sdiv 128)))"

definition task_deadline_diff :: "sched_state \<Rightarrow> task_struct \<Rightarrow> u64" where
  "task_deadline_diff s p = prio_deadline_diff s (TASK_USER_PRIO s p)"

definition static_deadline_diff :: "sched_state \<Rightarrow> int \<Rightarrow> u64" where
  "static_deadline_diff s sp = prio_deadline_diff s (USER_PRIO s sp)"

definition time_slice_expired :: "sched_state \<Rightarrow> tid \<Rightarrow> sched_state" where
  "time_slice_expired s p =
     (let t = tasks s p;
          t1 = t\<lparr>time_slice := timeslice s\<rparr>;
          t2 = t1\<lparr>deadline := niffies (grq s) + task_deadline_diff s t1\<rparr>
      in s\<lparr>tasks := (tasks s)(p := t2)\<rparr>)"

definition check_deadline :: "sched_state \<Rightarrow> tid \<Rightarrow> sched_state" where
  "check_deadline s p =
     (if time_slice (tasks s p) < RESCHED_US \<or> batch_task (tasks s p)
      then time_slice_expired s p else s)"

subsection \<open>The selector\<close>

text \<open>
  Modelled from the spec: \<^verbatim>\<open>find_next_bit(bitmap, size, offset)\<close>, which the selector
  calls and the source does not define, is the lowest set bit at or above \<open>offset\<close> and
  below \<open>size\<close>, or \<open>size\<close> when there is none.
\<close>

function find_next_bit :: "(int \<Rightarrow> bool) \<Rightarrow> int \<Rightarrow> int \<Rightarrow> int" where
  "find_next_bit bm sz off =
     (if off \<ge> sz then sz else if bm off then off else find_next_bit bm sz (off + 1))"
  by pat_completeness auto
termination
  by (relation "measure (\<lambda>(bm, sz, off). nat (sz - off))") auto

declare find_next_bit.simps [simp del]

text \<open>
  The \<^verbatim>\<open>list_for_each_entry\<close> loop of \<^verbatim>\<open>earliest_deadline_task\<close> over the rest of one
  band. \<open>Inl p\<close> is the jump to \<^verbatim>\<open>out_take\<close> with the realtime task \<open>p\<close>; \<open>Inr\<close> carries
  \<open>(edt, earliest_deadline)\<close> out of the loop.
\<close>

fun edt_scan ::
  "sched_state \<Rightarrow> nat \<Rightarrow> tid \<Rightarrow> int \<Rightarrow> tid list \<Rightarrow> tid \<times> u64 \<Rightarrow> tid + tid \<times> u64" where
  "edt_scan s r idl idx [] (edt, earliest_deadline) = Inr (edt, earliest_deadline)"
| "edt_scan s r idl idx (p # ps) (edt, earliest_deadline) =
     (if needs_other_cpu (tasks s p) (cpu_of s r)
      then edt_scan s r idl idx ps (edt, earliest_deadline)
      else if idx < MAX_RT_PRIO s then Inl p
      else
        (let dl = deadline (tasks s p) +
                  word_of_int (cache_distance s (task_rq s p) r (tasks s p))
         in if edt = idl \<or> deadline_before dl earliest_deadline
            then edt_scan s r idl idx ps (p, dl)
            else edt_scan s r idl idx ps (edt, earliest_deadline)))"

text \<open>
  The \<^verbatim>\<open>retry\<close> loop. The result is \<open>edt\<close> and whether \<^verbatim>\<open>out_take\<close> was reached.
\<close>

function edt_retry :: "sched_state \<Rightarrow> nat \<Rightarrow> tid \<Rightarrow> int \<Rightarrow> tid \<times> u64 \<Rightarrow> tid \<times> bool" where
  "edt_retry s r idl idx0 acc =
     (if find_next_bit (prio_bitmap (grq s)) (PRIO_LIMIT s) idx0 \<ge> PRIO_LIMIT s
      then (fst acc, False)
      else
        (case edt_scan s r idl (find_next_bit (prio_bitmap (grq s)) (PRIO_LIMIT s) idx0)
                (queue (grq s) (find_next_bit (prio_bitmap (grq s)) (PRIO_LIMIT s) idx0)) acc of
           Inl p \<Rightarrow> (p, True)
         | Inr acc1 \<Rightarrow>
             if fst acc1 = idl
             then (if find_next_bit (prio_bitmap (grq s)) (PRIO_LIMIT s) idx0 + 1 < PRIO_LIMIT s
                   then edt_retry s r idl
                          (find_next_bit (prio_bitmap (grq s)) (PRIO_LIMIT s) idx0 + 1) acc1
                   else (fst acc1, False))
             else (fst acc1, True)))"
  by pat_completeness auto
termination
proof (relation "measure (\<lambda>(s, r, idl, idx0, acc). nat (PRIO_LIMIT s - idx0))")
  show "wf (measure (\<lambda>(s, r, idl, idx0, acc). nat (PRIO_LIMIT s - idx0)))"
    by simp
next
  fix s :: sched_state and r :: nat and idl :: tid and idx0 :: int
    and acc x2 :: "tid \<times> u64"
  assume a: "\<not> PRIO_LIMIT s \<le> find_next_bit (prio_bitmap (grq s)) (PRIO_LIMIT s) idx0"
    and b: "find_next_bit (prio_bitmap (grq s)) (PRIO_LIMIT s) idx0 + 1 < PRIO_LIMIT s"
  have ge: "off \<le> find_next_bit bm sz off" if "off \<le> sz" for bm sz off
    using that
  proof (induction bm sz off rule: find_next_bit.induct)
    case (1 bm sz off)
    show ?case
    proof (cases "off \<ge> sz \<or> bm off")
      case True
      with "1.prems" show ?thesis by (subst find_next_bit.simps) auto
    next
      case False
      then have "off + 1 \<le> find_next_bit bm sz (off + 1)"
        using "1.IH" by simp
      with False show ?thesis by (subst find_next_bit.simps) simp
    qed
  qed
  have "idx0 \<le> find_next_bit (prio_bitmap (grq s)) (PRIO_LIMIT s) idx0"
  proof (cases "idx0 \<le> PRIO_LIMIT s")
    case True
    then show ?thesis by (rule ge)
  next
    case False
    then have "find_next_bit (prio_bitmap (grq s)) (PRIO_LIMIT s) idx0 = PRIO_LIMIT s"
      by (subst find_next_bit.simps) simp
    with a show ?thesis by simp
  qed
  with b show "((s, r, idl, find_next_bit (prio_bitmap (grq s)) (PRIO_LIMIT s) idx0 + 1, x2),
                 (s, r, idl, idx0, acc))
               \<in> measure (\<lambda>(s, r, idl, idx0, acc). nat (PRIO_LIMIT s - idx0))"
    by simp
qed

declare edt_retry.simps [simp del]

definition earliest_deadline_task :: "sched_state \<Rightarrow> nat \<Rightarrow> tid \<Rightarrow> tid \<times> sched_state" where
  "earliest_deadline_task s r idl =
     (let (edt, take) = edt_retry s r idl 0 (idl, 0)
      in if take then (edt, take_task s r edt) else (edt, s))"

subsection \<open>Waking and forking\<close>

text \<open>
  \<^verbatim>\<open>try_to_wake_up\<close> returns \<^verbatim>\<open>success\<close> with the new state. \<open>wstate\<close> is the mask of
  task states that can be woken.
\<close>

definition try_to_wake_up :: "sched_state \<Rightarrow> tid \<Rightarrow> 32 word \<Rightarrow> 32 word \<Rightarrow> int \<times> sched_state" where
  "try_to_wake_up s p wstate wake_flags =
     (let r = task_rq s p
      in if state (tasks s p) AND wstate = 0 then (0, s)
         else if task_queued s p \<or> task_running (tasks s p)
         then (0, s\<lparr>tasks := (tasks s)(p := (tasks s p)\<lparr>state := TASK_RUNNING s\<rparr>)\<rparr>)
         else
           (let s1 = activate_task s p r;
                sync = wake_flags AND WF_SYNC s;
                s2 = (if sync = 0 \<or> suitable_idle_cpus s1 (tasks s1 p)
                      then try_preempt s1 p r else s1)
            in (1, s2\<lparr>tasks := (tasks s2)(p := (tasks s2 p)\<lparr>state := TASK_RUNNING s2\<rparr>)\<rparr>)))"

text \<open>
  \<^verbatim>\<open>sched_fork(p, clone_flags)\<close> run on CPU \<open>this_cpu\<close> by the task \<open>current\<close>. The child
  \<open>p\<close> is a copy of its parent that is on no list; \<^verbatim>\<open>INIT_LIST_HEAD\<close> of its node
  changes no band.
\<close>

definition sched_fork_reset :: "sched_state \<Rightarrow> task_struct \<Rightarrow> task_struct" where
  "sched_fork_reset s t =
     (if sched_reset_on_fork t then
        (let t1 = (if policy t = SCHED_FIFO \<or> policy t = SCHED_RR
                   then (t\<lparr>policy := SCHED_NORMAL\<rparr>)
                          \<lparr>normal_prio := normal_prio_fn s (t\<lparr>policy := SCHED_NORMAL\<rparr>)\<rparr>
                   else t);
             t2 = (if PRIO_TO_NICE s (static_prio t1) < 0
                   then (t1\<lparr>static_prio := NICE_TO_PRIO s 0\<rparr>)\<lparr>normal_prio := NICE_TO_PRIO s 0\<rparr>
                   else t1)
         in t2\<lparr>sched_reset_on_fork := False\<rparr>)
      else t)"

text \<open>The first part of \<^verbatim>\<open>sched_fork\<close>, up to \<^verbatim>\<open>p->oncpu = 0\<close>.\<close>

definition sched_fork_setup :: "sched_state \<Rightarrow> nat \<Rightarrow> tid \<Rightarrow> tid \<Rightarrow> sched_state" where
  "sched_fork_setup s this_cpu current p =
     (let s1 = s\<lparr>tasks := (tasks s)(p := (tasks s p)\<lparr>state := TASK_RUNNING s\<rparr>)\<rparr>;
          s2 = set_task_cpu s1 p this_cpu;
          s3 = s2\<lparr>tasks := (tasks s2)(p := (tasks s2 p)\<lparr>sched_time := 0, stime_pc := 0, utime_pc := 0\<rparr>)\<rparr>;
          s4 = s3\<lparr>tasks := (tasks s3)(p := sched_fork_reset s3 (tasks s3 p))\<rparr>;
          s5 = s4\<lparr>tasks := (tasks s4)(p := (tasks s4 p)\<lparr>prio := normal_prio (tasks s4 current)\<rparr>)\<rparr>
      in s5\<lparr>tasks := (tasks s5)(p := (tasks s5 p)\<lparr>oncpu := False\<rparr>)\<rparr>)"

text \<open>
  The second part, run with the lock of \<^verbatim>\<open>task_grq_lock_irq(curr)\<close> held: the
  timeslice is shared between parent and child.
\<close>

definition sched_fork_share :: "sched_state \<Rightarrow> tid \<Rightarrow> tid \<Rightarrow> sched_state" where
  "sched_fork_share s current p =
     (let r = task_rq s current;
          s1 = (if rq_time_slice (runqueues s r) \<ge> RESCHED_US * 2
                then
                  (let sa = s\<lparr>runqueues := (runqueues s)(r := (runqueues s r)
                                \<lparr>rq_time_slice := rq_time_slice (runqueues s r) sdiv 2\<rparr>)\<rparr>
                   in sa\<lparr>tasks := (tasks sa)(p := (tasks sa p)
                                \<lparr>time_slice := rq_time_slice (runqueues sa r)\<rparr>)\<rparr>)
                else
                  (let sa = s\<lparr>runqueues := (runqueues s)(r := (runqueues s r)\<lparr>rq_time_slice := 0\<rparr>)\<rparr>;
                       sb = set_tsk_need_resched sa current
                   in time_slice_expired sb p))
      in s1\<lparr>tasks := (tasks s1)(p := (tasks s1 p)\<lparr>last_ran := rq_last_ran (runqueues s1 r)\<rparr>)\<rparr>)"

definition sched_fork :: "sched_state \<Rightarrow> nat \<Rightarrow> tid \<Rightarrow> tid \<Rightarrow> sched_state" where
  "sched_fork s this_cpu current p =
     (let s1 = sched_fork_setup s this_cpu current p
      in if policy (tasks s1 p) = SCHED_FIFO then s1 else sched_fork_share s1 current p)"

subsection \<open>The tick\<close>

text \<open>
  What the accounting reads from the interrupted context: \<^verbatim>\<open>user_mode(get_irq_regs())\<close>,
  \<^verbatim>\<open>irq_count() != HARDIRQ_OFFSET\<close>, \<^verbatim>\<open>hardirq_count() - hardirq_offset\<close> being
  non-zero, and \<^verbatim>\<open>softirq_count()\<close> being non-zero.
\<close>

record irq_context =
  user_mode :: bool
  irq_count_other :: bool
  hardirq_nested :: bool
  in_softirq :: bool

definition JIFFY_NS :: "sched_state \<Rightarrow> int" where
  "JIFFY_NS s = 1000000000 sdiv HZ s"

definition NS_TO_PC :: "sched_state \<Rightarrow> int \<Rightarrow> int" where
  "NS_TO_PC s ns = wrap32 (ns * 100) sdiv JIFFY_NS s"

definition pc_add :: "ulong \<Rightarrow> ulong \<Rightarrow> ulong" where
  "pc_add v pc = (if v + pc \<ge> 100 then (v + pc) mod 100 else v + pc)"

text \<open>
  The percentage accounting. The \<^verbatim>\<open>cputime\<close> totals of the task and the per-CPU
  \<^verbatim>\<open>kernel_stat\<close> that a full percent is banked into are not part of the state.
\<close>

definition pc_idle_time :: "sched_state \<Rightarrow> nat \<Rightarrow> ulong \<Rightarrow> sched_state" where
  "pc_idle_time s c pc =
     (let r = runqueues s c;
          r1 = (if nr_iowait r > 0 then r\<lparr>iowait_pc := pc_add (iowait_pc r) pc\<rparr>
                else r\<lparr>idle_pc := pc_add (idle_pc r) pc\<rparr>)
      in s\<lparr>runqueues := (runqueues s)(c := r1)\<rparr>)"

definition pc_system_time ::
  "sched_state \<Rightarrow> nat \<Rightarrow> tid \<Rightarrow> irq_context \<Rightarrow> ulong \<Rightarrow> ulong \<Rightarrow> sched_state" where
  "pc_system_time s c p ctx pc ns =
     (let t = tasks s p;
          t1 = t\<lparr>stime_pc := (if stime_pc t + pc \<ge> 100 then stime_pc t + pc - 100
                                else stime_pc t + pc)\<rparr>;
          t2 = t1\<lparr>sched_time := sched_time t1 + ucast ns\<rparr>;
          r = runqueues s c;
          r1 = (if hardirq_nested ctx then r\<lparr>irq_pc := pc_add (irq_pc r) pc\<rparr>
                else if in_softirq ctx then r\<lparr>softirq_pc := pc_add (softirq_pc r) pc\<rparr>
                else r\<lparr>system_pc := pc_add (system_pc r) pc\<rparr>)
      in s\<lparr>tasks := (tasks s)(p := t2), runqueues := (runqueues s)(c := r1)\<rparr>)"

definition pc_user_time :: "sched_state \<Rightarrow> nat \<Rightarrow> tid \<Rightarrow> ulong \<Rightarrow> ulong \<Rightarrow> sched_state" where
  "pc_user_time s c p pc ns =
     (let t = tasks s p;
          t1 = t\<lparr>utime_pc := (if utime_pc t + pc \<ge> 100 then utime_pc t + pc - 100
                                else utime_pc t + pc)\<rparr>;
          t2 = t1\<lparr>sched_time := sched_time t1 + ucast ns\<rparr>;
          r = runqueues s c;
          r1 = (if TASK_NICE s t2 > 0 \<or> idleprio_task t2
                then r\<lparr>nice_pc := pc_add (nice_pc r) pc\<rparr>
                else r\<lparr>user_pc := pc_add (user_pc r) pc\<rparr>)
      in s\<lparr>tasks := (tasks s)(p := t2), runqueues := (runqueues s)(c := r1)\<rparr>)"

definition update_cpu_clock ::
  "sched_state \<Rightarrow> nat \<Rightarrow> tid \<Rightarrow> bool \<Rightarrow> irq_context \<Rightarrow> sched_state" where
  "update_cpu_clock s c p tick ctx =
     (let r = runqueues s c;
          account_ns0 = sint (ucast (clock r - timekeep_clock r) :: ulong);
          idl = idle r;
          account_ns = (if account_ns0 < 0 then 0 else account_ns0);
          account_pc = (word_of_int (NS_TO_PC s account_ns) :: ulong);
          ns = (word_of_int account_ns :: ulong);
          s1 = (if tick then
                  (if user_mode ctx then pc_user_time s c p account_pc ns
                   else if p \<noteq> idl \<or> irq_count_other ctx
                   then pc_system_time s c p ctx account_pc ns
                   else pc_idle_time s c account_pc)
                else
                  (if p = idl then pc_idle_time s c account_pc
                   else pc_user_time s c p account_pc ns));
          r1 = runqueues s1 c;
          r2 = (if rq_policy r1 \<noteq> SCHED_FIFO \<and> p \<noteq> idl then
                  (let time_diff = niffy_diff s1 (sint (clock r1 - rq_last_ran r1)) 1
                   in r1\<lparr>rq_time_slice := wrap32 (rq_time_slice r1 - NS_TO_US time_diff)\<rparr>)
                else r1);
          r3 = r2\<lparr>rq_last_ran := clock r2, timekeep_clock := clock r2\<rparr>
      in s1\<lparr>runqueues := (runqueues s1)(c := r3)\<rparr>)"

text \<open>
  \<^verbatim>\<open>num_online_cpus()\<close> is an \<^verbatim>\<open>unsigned int\<close>, so \<^verbatim>\<open>ISO_PERIOD\<close> and every
  comparison and quotient it enters are unsigned: \<^verbatim>\<open>grq.iso_ticks\<close>, an \<^verbatim>\<open>int\<close>, is
  converted. An \<^verbatim>\<open>ISO_PERIOD\<close> of 0 is outside the model.
\<close>

definition num_online_cpus :: "sched_state \<Rightarrow> 32 word" where
  "num_online_cpus s = word_of_int (cpus_weight s (cpu_online_map s))"

definition ISO_PERIOD :: "sched_state \<Rightarrow> 32 word" where
  "ISO_PERIOD s = word_of_int (wrap32 (5 * HZ s)) * num_online_cpus s + 1"

definition set_iso_refractory :: "sched_state \<Rightarrow> sched_state" where
  "set_iso_refractory s = s\<lparr>grq := (grq s)\<lparr>iso_refractory := 1\<rparr>\<rparr>"

definition clear_iso_refractory :: "sched_state \<Rightarrow> sched_state" where
  "clear_iso_refractory s = s\<lparr>grq := (grq s)\<lparr>iso_refractory := 0\<rparr>\<rparr>"

definition test_ret_isorefractory :: "sched_state \<Rightarrow> int \<times> sched_state" where
  "test_ret_isorefractory s =
     (let s1 = (if iso_refractory (grq s) = 0 then
                  (if word_of_int (iso_ticks (grq s)) > ISO_PERIOD s * word_of_int (sched_iso_cpu s)
                   then set_iso_refractory s else s)
                else
                  (if word_of_int (iso_ticks (grq s)) <
                      ISO_PERIOD s * word_of_int (wrap32 (sched_iso_cpu s * 115) sdiv 128)
                   then clear_iso_refractory s else s))
      in (iso_refractory (grq s1), s1))"

definition iso_tick :: "sched_state \<Rightarrow> sched_state" where
  "iso_tick s = s\<lparr>grq := (grq s)\<lparr>iso_ticks := wrap32 (iso_ticks (grq s) + 100)\<rparr>\<rparr>"

definition no_iso_tick :: "sched_state \<Rightarrow> sched_state" where
  "no_iso_tick s =
     (if iso_ticks (grq s) \<noteq> 0 then
        (let s1 = s\<lparr>grq := (grq s)\<lparr>iso_ticks :=
                      sint (word_of_int (iso_ticks (grq s)) -
                            (word_of_int (iso_ticks (grq s)) div ISO_PERIOD s + 1))\<rparr>\<rparr>
         in if iso_refractory (grq s1) \<noteq> 0 \<and>
               word_of_int (iso_ticks (grq s1)) <
                 ISO_PERIOD s1 * word_of_int (wrap32 (sched_iso_cpu s1 * 115) sdiv 128)
            then clear_iso_refractory s1 else s1)
      else s)"

definition rq_running_iso :: "sched_state \<Rightarrow> rq \<Rightarrow> bool" where
  "rq_running_iso s r = (rq_prio r = ISO_PRIO s)"

definition set_rq_time_slice :: "sched_state \<Rightarrow> nat \<Rightarrow> int \<Rightarrow> sched_state" where
  "set_rq_time_slice s c v =
     s\<lparr>runqueues := (runqueues s)(c := (runqueues s c)\<lparr>rq_time_slice := v\<rparr>)\<rparr>"

text \<open>
  The end of \<^verbatim>\<open>task_running_tick\<close>: the timeslice has run out, the current task is
  marked for reschedule.
\<close>

definition task_running_tick_expired :: "sched_state \<Rightarrow> nat \<Rightarrow> sched_state" where
  "task_running_tick_expired s c =
     (let p = curr (runqueues s c)
      in set_tsk_need_resched (requeue_task s p) p)"

definition task_running_tick :: "sched_state \<Rightarrow> nat \<Rightarrow> sched_state" where
  "task_running_tick s c =
     (let s1 = (if rt_queue s (runqueues s c) \<or>
                   (iso_queue (runqueues s c) \<and> iso_refractory (grq s) = 0)
                then (if word_of_int (iso_ticks (grq s)) \<le> ISO_PERIOD s * 100 - 100
                      then iso_tick s else s)
                else no_iso_tick s);
          s2 = (if iso_queue (runqueues s1 c) then
                  (let (refr, sa) = test_ret_isorefractory s1
                   in if refr \<noteq> 0 then
                        (if rq_running_iso sa (runqueues sa c) then set_rq_time_slice sa c 0
                         else sa)
                      else sa)
                else s1)
      in if rq_policy (runqueues s2 c) = SCHED_FIFO then s2
         else if dither (runqueues s2 c) \<noteq> 0 then
           (if rq_time_slice (runqueues s2 c) > HALF_JIFFY_US s2 then s2
            else task_running_tick_expired (set_rq_time_slice s2 c 0) c)
         else if rq_time_slice (runqueues s2 c) \<ge> RESCHED_US then s2
         else task_running_tick_expired s2 c)"

text \<open>\<^verbatim>\<open>scheduler_tick\<close> on CPU \<open>c\<close> (\<^verbatim>\<open>smp_processor_id()\<close>).\<close>

definition scheduler_tick :: "sched_state \<Rightarrow> nat \<Rightarrow> irq_context \<Rightarrow> sched_state" where
  "scheduler_tick s c ctx =
     (let s1 = update_rq_clock s c;
          s2 = update_cpu_clock s1 c (curr (runqueues s1 c)) True ctx;
          s3 = (if \<not> rq_idle s2 (runqueues s2 c) then task_running_tick s2 c
                else no_iso_tick s2)
      in s3\<lparr>runqueues := (runqueues s3)(c := (runqueues s3 c)\<lparr>last_tick := clock (runqueues s3 c)\<rparr>)\<rparr>)"

subsection \<open>Nice levels\<close>

definition set_rq_task :: "sched_state \<Rightarrow> nat \<Rightarrow> tid \<Rightarrow> sched_state" where
  "set_rq_task s c p =
     (let t = tasks s p; r = runqueues s c;
          r1 = r\<lparr>rq_time_slice := time_slice t, rq_deadline := deadline t,
                 rq_last_ran := last_ran t, rq_policy := policy t, rq_prio := prio t\<rparr>;
          r2 = r1\<lparr>rq_running := (if p \<noteq> idle r1 then 1 else 0)\<rparr>
      in s\<lparr>runqueues := (runqueues s)(c := r2)\<rparr>)"

definition reset_rq_task :: "sched_state \<Rightarrow> nat \<Rightarrow> tid \<Rightarrow> sched_state" where
  "reset_rq_task s c p =
     s\<lparr>runqueues := (runqueues s)(c := (runqueues s c)\<lparr>rq_policy := policy (tasks s p),
                                                         rq_prio := prio (tasks s p)\<rparr>)\<rparr>"

definition adjust_deadline :: "sched_state \<Rightarrow> tid \<Rightarrow> int \<Rightarrow> sched_state" where
  "adjust_deadline s p new_prio =
     s\<lparr>tasks := (tasks s)(p := (tasks s p)\<lparr>deadline :=
          deadline (tasks s p) +
          (static_deadline_diff s new_prio - task_deadline_diff s (tasks s p))\<rparr>)\<rparr>"

definition set_user_nice :: "sched_state \<Rightarrow> tid \<Rightarrow> int \<Rightarrow> sched_state" where
  "set_user_nice s p nice =
     (if TASK_NICE s (tasks s p) = nice \<or> nice < - 20 \<or> nice > 19 then s
      else
        (let new_static = NICE_TO_PRIO s nice;
             r = task_rq s p;
             s1 = update_clocks s r
         in if has_rt_policy (tasks s1 p)
            then s1\<lparr>tasks := (tasks s1)(p := (tasks s1 p)\<lparr>static_prio := new_static\<rparr>)\<rparr>
            else
              (let queued = task_queued s1 p;
                   s2 = (if queued then dequeue_task s1 p else s1);
                   s3 = adjust_deadline s2 p new_static;
                   old_static = static_prio (tasks s3 p);
                   s4 = s3\<lparr>tasks := (tasks s3)(p := (tasks s3 p)\<lparr>static_prio := new_static\<rparr>)\<rparr>;
                   (t, pr) = effective_prio s4 (tasks s4 p);
                   s5 = s4\<lparr>tasks := (tasks s4)(p := t\<lparr>prio := pr\<rparr>)\<rparr>
               in if queued then
                    (let s6 = enqueue_task s5 p
                     in if new_static < old_static then try_preempt s6 p r else s6)
                  else if task_running (tasks s5 p) then
                    (let s6 = reset_rq_task s5 r p
                     in if old_static < new_static then resched_task s6 p else s6)
                  else s5)))"

definition task_nice :: "sched_state \<Rightarrow> tid \<Rightarrow> int" where
  "task_nice s p = TASK_NICE s (tasks s p)"

section \<open>Example states\<close>

text \<open>
  A single-CPU system with the constants of the BFS headers (\<open>MAX_RT_PRIO = 101\<close>,
  \<open>PRIO_LIMIT = 104\<close>), \<open>HZ = 200\<close> and the default tunables. CPU 0 runs task 1, a
  nice-0 \<^verbatim>\<open>SCHED_NORMAL\<close> task with 5000 us left; nothing is queued and no CPU is idle.
  The states below vary it.
\<close>

definition ex_task :: task_struct where
  "ex_task = \<lparr>state = 0, prio = 102, static_prio = 121, normal_prio = 102, rt_priority = 0,
     policy = SCHED_NORMAL, deadline = 1000, time_slice = 6144, last_ran = 0,
     cpus_allowed = {0, 1}, oncpu = False, cpu = 0, need_resched = False,
     sched_reset_on_fork = False, sched_time = 0, stime_pc = 0, utime_pc = 0,
     freezing = False, signal_pending = False, task_contributes_to_load = False,
     pf_exiting = False\<rparr>"

definition ex_rq :: rq where
  "ex_rq = \<lparr>curr = 1, idle = 0, rq_deadline = 1000, rq_policy = SCHED_NORMAL,
     rq_time_slice = 5000, rq_last_ran = 0, rq_prio = 102, rq_running = 1,
     timekeep_clock = 0, user_pc = 0, nice_pc = 0, irq_pc = 0, softirq_pc = 0,
     system_pc = 0, iowait_pc = 0, idle_pc = 0, nr_iowait = 0, rq_cpu = 0,
     cpu_locality = (\<lambda>c. 0), last_niffy = 0, clock = 0, old_clock = 0, last_tick = 0,
     dither = 0\<rparr>"

definition ex_grq :: global_rq where
  "ex_grq = \<lparr>nr_running = 1, nr_uninterruptible = 0, nr_switches = 0,
     queue = (\<lambda>b. []), prio_bitmap = (\<lambda>b. b = 104), qnr = 0, cpu_idle_map = {},
     idle_cpus = 0, niffies = 0, last_jiffy = 0, iso_ticks = 0, iso_refractory = 0\<rparr>"

definition ex_state :: sched_state where
  "ex_state = \<lparr>MAX_RT_PRIO = 101, PRIO_LIMIT = 104, HZ = 200, NR_CPUS = 1,
     TASK_RUNNING = 0, WF_SYNC = 1, rr_interval = 6, sched_iso_cpu = 25,
     prio_ratios = sched_init_prio_ratios, grq = ex_grq, runqueues = (\<lambda>c. ex_rq),
     tasks = (\<lambda>p. ex_task), jiffies = 0, sched_clock_cpu = (\<lambda>c. 0),
     cpu_online_map = {0}\<rparr>"

text \<open>Every task is \<^verbatim>\<open>SCHED_ISO\<close> at its normal priority, the ISO band.\<close>

definition ex_iso_state :: sched_state where
  "ex_iso_state =
     ex_state\<lparr>tasks := (\<lambda>p. ex_task\<lparr>policy := SCHED_ISO, prio := 101, normal_prio := 101\<rparr>)\<rparr>"

text \<open>Task 1 sleeps interruptibly no more: it is queued in the NORMAL band, state bit 1 set.\<close>

definition ex_queued_state :: sched_state where
  "ex_queued_state =
     ex_state\<lparr>grq := ex_grq\<lparr>queue := (\<lambda>b. if b = 102 then [1] else []),
                             prio_bitmap := (\<lambda>b. b = 102 \<or> b = 104), qnr := 1\<rparr>,
              tasks := (\<lambda>p. ex_task\<lparr>state := 1\<rparr>)\<rparr>"

text \<open>
  CPU 0 runs a task of policy \<open>pol\<close> at priority \<open>pr\<close> with deadline 1000; task 2,
  of the same policy and priority with the earlier deadline 5, has been made runnable.
\<close>

definition ex_wake_state :: "policy \<Rightarrow> int \<Rightarrow> sched_state" where
  "ex_wake_state pol pr =
     ex_state\<lparr>runqueues := (\<lambda>c. ex_rq\<lparr>rq_prio := pr, rq_policy := pol\<rparr>),
              tasks := (\<lambda>p. if p = 2 then ex_task\<lparr>policy := pol, prio := pr, deadline := 5\<rparr>
                              else ex_task\<lparr>policy := pol, prio := pr\<rparr>)\<rparr>"

text \<open>
  Three CPUs are online and none is idle. CPUs 0 and 1 run tasks 10 and 11 at priority 102
  with deadlines 3005 and 3000; CPU 2 runs the realtime task 12 at priority 50. Task 2, at
  priority 102 with deadline 2000 and allowed on all three CPUs, has been made runnable
  from CPU 1. CPU 0 is at locality 3 from CPU 1, so its offset deadline is
  3005 - 78 = 2927, earlier than the 3000 of CPU 1.
\<close>

definition ex_smp_state :: sched_state where
  "ex_smp_state =
     ex_state\<lparr>NR_CPUS := 3, cpu_online_map := {0, 1, 2},
              runqueues := (\<lambda>c. if c = 0
                                then ex_rq\<lparr>curr := 10, rq_deadline := 3005,
                                           cpu_locality := (\<lambda>d. if d = 1 then 3 else 0)\<rparr>
                                else if c = 1
                                then ex_rq\<lparr>curr := 11, rq_deadline := 3000, rq_cpu := 1\<rparr>
                                else ex_rq\<lparr>curr := 12, rq_prio := 50, rq_policy := SCHED_FIFO,
                                           rq_deadline := 9000, rq_cpu := 2\<rparr>),
              tasks := (\<lambda>p. if p = 2 then ex_task\<lparr>deadline := 2000, cpus_allowed := {0, 1, 2}\<rparr>
                              else ex_task)\<rparr>"

text \<open>
  CPU 0 runs a task of policy \<open>pol\<close> at priority \<open>pr\<close>; its clock has advanced by one
  tick of 5 ms since the task last ran.
\<close>

definition ex_tick_state :: "policy \<Rightarrow> int \<Rightarrow> sched_state" where
  "ex_tick_state pol pr =
     ex_state\<lparr>runqueues := (\<lambda>c. ex_rq\<lparr>rq_policy := pol, rq_prio := pr, clock := 5000000\<rparr>),
              sched_clock_cpu := (\<lambda>c. 5000000)\<rparr>"

definition ex_ctx :: irq_context where
  "ex_ctx = \<lparr>user_mode = True, irq_count_other = False, hardirq_nested = False,
     in_softirq = False\<rparr>"

text \<open>
  Task 1, running on CPU 0 with \<open>ts\<close> microseconds left and deadline 1000, forks task 2,
  a copy of itself; \<^verbatim>\<open>grq.niffies\<close> is 2000.
\<close>

definition ex_fork_state :: "int \<Rightarrow> sched_state" where
  "ex_fork_state ts = ex_state\<lparr>runqueues := (\<lambda>c. ex_rq\<lparr>rq_time_slice := ts\<rparr>),
                               grq := ex_grq\<lparr>niffies := 2000\<rparr>\<rparr>"

text \<open>
  Three realtime tasks are queued: task 5 in band 5, allowed on CPU 1 only; tasks 3 and
  4 in band 10, in this order, task 3 allowed on CPU 1 only. Task 6 waits in the NORMAL
  band.
\<close>

definition ex_rt_state :: sched_state where
  "ex_rt_state =
     ex_state\<lparr>grq := ex_grq\<lparr>queue := (\<lambda>b. if b = 5 then [5] else if b = 10 then [3, 4]
                                             else if b = 102 then [6] else []),
                             prio_bitmap := (\<lambda>b. b = 5 \<or> b = 10 \<or> b = 102 \<or> b = 104),
                             qnr := 4, nr_running := 5\<rparr>,
              tasks := (\<lambda>p. if p = 3 then ex_task\<lparr>prio := 10, policy := SCHED_FIFO, cpus_allowed := {1}\<rparr>
                              else if p = 4 then ex_task\<lparr>prio := 10, policy := SCHED_FIFO, cpu := 1\<rparr>
                              else if p = 5 then ex_task\<lparr>prio := 5, policy := SCHED_RR, cpus_allowed := {1}\<rparr>
                              else ex_task)\<rparr>"

section \<open>Properties\<close>

subsection \<open>Arithmetic of wrapped integers\<close>

lemma wrap32_wrap32_add: "wrap32 (wrap32 a + b) = wrap32 (a + b)"
  by (simp add: wrap32_def)

lemma wrap32_wrap32_diff: "wrap32 (wrap32 a - b) = wrap32 (a - b)"
  by (simp add: wrap32_def)

lemma wrap32_id: "- (2 ^ 31) \<le> x \<Longrightarrow> x < 2 ^ 31 \<Longrightarrow> wrap32 x = x"
  unfolding wrap32_def
  by (simp add: signed_of_int signed_take_bit_int_eq_self)

subsection \<open>Enqueueing a SCHED_ISO task\<close>

text \<open>
  Claim C7. \<^verbatim>\<open>enqueue_task\<close> on a \<^verbatim>\<open>SCHED_ISO\<close> task that holds no realtime priority
  (\<^verbatim>\<open>!rt_task(p)\<close>) and whose cached \<^verbatim>\<open>normal_prio\<close> is what \<^verbatim>\<open>normal_prio(p)\<close>
  computes: with \<^verbatim>\<open>grq.iso_refractory\<close> set the task gets priority \<open>NORMAL_PRIO\<close> and is
  appended to that band, with it clear the task gets its \<^verbatim>\<open>normal_prio\<close>, which is
  \<open>ISO_PRIO\<close>, and is appended to that band; the band's bit is set and no other band
  changes.
\<close>

theorem enqueue_task_iso_band:
  assumes "policy (tasks s p) = SCHED_ISO"
    and "\<not> rt_task s (tasks s p)"
    and "normal_prio (tasks s p) = normal_prio_fn s (tasks s p)"
  shows "let band = (if iso_refractory (grq s) \<noteq> 0 then NORMAL_PRIO s else ISO_PRIO s);
             s' = enqueue_task s p
         in prio (tasks s' p) = band \<and>
            (iso_refractory (grq s) = 0 \<longrightarrow> band = normal_prio (tasks s p)) \<and>
            queue (grq s') band = queue (grq s) band @ [p] \<and>
            prio_bitmap (grq s') band \<and>
            (\<forall>b. b \<noteq> band \<longrightarrow> queue (grq s') b = queue (grq s) b)"
  using assms
  by (simp add: enqueue_task_def Let_def iso_task_def idleprio_task_def isoprio_suitable_def
      normal_prio_fn_def has_rt_policy_def is_rt_policy_def)

theorem enqueue_task_iso_band_witness:
  "policy (tasks ex_iso_state 1) = SCHED_ISO \<and>
   \<not> rt_task ex_iso_state (tasks ex_iso_state 1) \<and>
   normal_prio (tasks ex_iso_state 1) = normal_prio_fn ex_iso_state (tasks ex_iso_state 1) \<and>
   iso_refractory (grq ex_iso_state) = 0 \<and>
   prio (tasks (enqueue_task ex_iso_state 1) 1) = 101 \<and>
   queue (grq (enqueue_task ex_iso_state 1)) 101 = [1] \<and>
   prio_bitmap (grq (enqueue_task ex_iso_state 1)) 101"
  using enqueue_task_iso_band [of ex_iso_state 1]
  by (simp add: ex_iso_state_def ex_state_def ex_task_def ex_grq_def rt_task_def rt_prio_def
      normal_prio_fn_def has_rt_policy_def is_rt_policy_def idleprio_task_def iso_task_def
      ISO_PRIO_def Let_def)

subsection \<open>Preemption\<close>

text \<open>
  Claim C8. \<^verbatim>\<open>try_preempt\<close> on a \<^verbatim>\<open>SCHED_IDLEPRIO\<close> task none of whose allowed CPUs
  is in the idle map returns with the state as it was: \<^verbatim>\<open>TIF_NEED_RESCHED\<close> is set on
  no task, so no CPU is marked for reschedule.
\<close>

theorem try_preempt_idleprio:
  assumes "policy (tasks s p) = SCHED_IDLEPRIO"
    and "cpus_allowed (tasks s p) \<inter> cpu_idle_map (grq s) = {}"
  shows "try_preempt s p this_rq = s \<and>
         (\<forall>t. need_resched (tasks (try_preempt s p this_rq) t) = need_resched (tasks s t))"
  using assms by (simp add: try_preempt_def suitable_idle_cpus_def)

theorem try_preempt_idleprio_witness:
  "policy (tasks (ex_wake_state SCHED_IDLEPRIO 103) 2) = SCHED_IDLEPRIO \<and>
   cpus_allowed (tasks (ex_wake_state SCHED_IDLEPRIO 103) 2) \<inter>
     cpu_idle_map (grq (ex_wake_state SCHED_IDLEPRIO 103)) = {} \<and>
   try_preempt (ex_wake_state SCHED_IDLEPRIO 103) 2 0 = ex_wake_state SCHED_IDLEPRIO 103 \<and>
   \<not> need_resched (tasks (try_preempt (ex_wake_state SCHED_IDLEPRIO 103) 2 0) 1)"
  using try_preempt_idleprio [of "ex_wake_state SCHED_IDLEPRIO 103" 2 0]
  by (simp add: ex_wake_state_def ex_state_def ex_grq_def ex_task_def)

lemma scan_better_trans: "scan_better a b \<Longrightarrow> scan_better b c \<Longrightarrow> scan_better a c"
  by (auto simp add: scan_better_def)

lemma scan_better_not_trans: "scan_better a b \<Longrightarrow> \<not> scan_better c b \<Longrightarrow> scan_better a c"
  by (auto simp add: scan_better_def)

lemma preempt_scan_step:
  "preempt_scan s t this_rq (c # cs) (ld, hp, hrq) =
     (if scan_better (rq_prio (cpu_rq s c), rq_offset_deadline s t this_rq c) (hp, ld)
      then preempt_scan s t this_rq cs (rq_offset_deadline s t this_rq c, rq_prio (cpu_rq s c), c)
      else preempt_scan s t this_rq cs (ld, hp, hrq))"
  by (auto simp add: Let_def scan_better_def rq_offset_deadline_def deadline_after_def)

lemma preempt_scan_result:
  assumes "preempt_scan s t this_rq cs (ld, hp, hrq) = (ld', hp', hrq')"
  shows "(ld' = ld \<and> hp' = hp \<and> hrq' = hrq \<and>
          (\<forall>c \<in> set cs. \<not> scan_better (rq_prio (cpu_rq s c), rq_offset_deadline s t this_rq c) (hp, ld)))
       \<or> (\<exists>xs ys. cs = xs @ hrq' # ys \<and>
             hp' = rq_prio (cpu_rq s hrq') \<and> ld' = rq_offset_deadline s t this_rq hrq' \<and>
             scan_better (hp', ld') (hp, ld) \<and>
             (\<forall>c \<in> set xs. scan_better (hp', ld')
                              (rq_prio (cpu_rq s c), rq_offset_deadline s t this_rq c)) \<and>
             (\<forall>c \<in> set ys. \<not> scan_better (rq_prio (cpu_rq s c), rq_offset_deadline s t this_rq c)
                              (hp', ld')))"
  using assms
proof (induction cs arbitrary: ld hp hrq)
  case Nil
  then show ?case by simp
next
  case (Cons c cs)
  let ?k = "\<lambda>c. (rq_prio (cpu_rq s c), rq_offset_deadline s t this_rq c)"
  show ?case
  proof (cases "scan_better (?k c) (hp, ld)")
    case False
    with Cons.prems have r: "preempt_scan s t this_rq cs (ld, hp, hrq) = (ld', hp', hrq')"
      by (simp del: preempt_scan.simps add: preempt_scan_step)
    from Cons.IH [OF r] show ?thesis
    proof
      assume "ld' = ld \<and> hp' = hp \<and> hrq' = hrq \<and> (\<forall>c \<in> set cs. \<not> scan_better (?k c) (hp, ld))"
      with False show ?thesis by simp
    next
      assume "\<exists>xs ys. cs = xs @ hrq' # ys \<and>
             hp' = rq_prio (cpu_rq s hrq') \<and> ld' = rq_offset_deadline s t this_rq hrq' \<and>
             scan_better (hp', ld') (hp, ld) \<and>
             (\<forall>c \<in> set xs. scan_better (hp', ld') (?k c)) \<and>
             (\<forall>c \<in> set ys. \<not> scan_better (?k c) (hp', ld'))"
      then obtain xs ys where d: "cs = xs @ hrq' # ys"
        "hp' = rq_prio (cpu_rq s hrq')" "ld' = rq_offset_deadline s t this_rq hrq'"
        "scan_better (hp', ld') (hp, ld)"
        "\<forall>c \<in> set xs. scan_better (hp', ld') (?k c)"
        "\<forall>c \<in> set ys. \<not> scan_better (?k c) (hp', ld')"
        by blast
      from d(4) False have "scan_better (hp', ld') (?k c)"
        by (rule scan_better_not_trans)
      with d have "c # cs = (c # xs) @ hrq' # ys \<and>
             hp' = rq_prio (cpu_rq s hrq') \<and> ld' = rq_offset_deadline s t this_rq hrq' \<and>
             scan_better (hp', ld') (hp, ld) \<and>
             (\<forall>c \<in> set (c # xs). scan_better (hp', ld') (?k c)) \<and>
             (\<forall>c \<in> set ys. \<not> scan_better (?k c) (hp', ld'))"
        by simp
      then show ?thesis by blast
    qed
  next
    case True
    with Cons.prems have r:
      "preempt_scan s t this_rq cs (rq_offset_deadline s t this_rq c, rq_prio (cpu_rq s c), c) =
       (ld', hp', hrq')"
      by (simp del: preempt_scan.simps add: preempt_scan_step)
    from Cons.IH [OF r] show ?thesis
    proof
      assume a: "ld' = rq_offset_deadline s t this_rq c \<and> hp' = rq_prio (cpu_rq s c) \<and> hrq' = c \<and>
        (\<forall>d \<in> set cs. \<not> scan_better (?k d) (rq_prio (cpu_rq s c), rq_offset_deadline s t this_rq c))"
      with True have "c # cs = [] @ hrq' # cs \<and>
             hp' = rq_prio (cpu_rq s hrq') \<and> ld' = rq_offset_deadline s t this_rq hrq' \<and>
             scan_better (hp', ld') (hp, ld) \<and>
             (\<forall>c \<in> set []. scan_better (hp', ld') (?k c)) \<and>
             (\<forall>c \<in> set cs. \<not> scan_better (?k c) (hp', ld'))"
        by simp
      then show ?thesis by blast
    next
      assume "\<exists>xs ys. cs = xs @ hrq' # ys \<and>
             hp' = rq_prio (cpu_rq s hrq') \<and> ld' = rq_offset_deadline s t this_rq hrq' \<and>
             scan_better (hp', ld') (rq_prio (cpu_rq s c), rq_offset_deadline s t this_rq c) \<and>
             (\<forall>c \<in> set xs. scan_better (hp', ld') (?k c)) \<and>
             (\<forall>c \<in> set ys. \<not> scan_better (?k c) (hp', ld'))"
      then obtain xs ys where d: "cs = xs @ hrq' # ys"
        "hp' = rq_prio (cpu_rq s hrq')" "ld' = rq_offset_deadline s t this_rq hrq'"
        "scan_better (hp', ld') (?k c)"
        "\<forall>c \<in> set xs. scan_better (hp', ld') (?k c)"
        "\<forall>c \<in> set ys. \<not> scan_better (?k c) (hp', ld')"
        by blast
      from d(4) True have "scan_better (hp', ld') (hp, ld)"
        by (rule scan_better_trans)
      with d have "c # cs = (c # xs) @ hrq' # ys \<and>
             hp' = rq_prio (cpu_rq s hrq') \<and> ld' = rq_offset_deadline s t this_rq hrq' \<and>
             scan_better (hp', ld') (hp, ld) \<and>
             (\<forall>c \<in> set (c # xs). scan_better (hp', ld') (?k c)) \<and>
             (\<forall>c \<in> set ys. \<not> scan_better (?k c) (hp', ld'))"
        by simp
      then show ?thesis by blast
    qed
  qed
qed


lemma highest_prio_scan_busiest:
  assumes ne: "cpus_of_mask s (cpu_online_map s \<inter> cpus_allowed (tasks s p)) \<noteq> []"
    and pos: "\<forall>c \<in> set (cpus_of_mask s (cpu_online_map s \<inter> cpus_allowed (tasks s p))).
                0 \<le> rq_prio (cpu_rq s c)"
  shows "\<exists>xs hrq ys.
           cpus_of_mask s (cpu_online_map s \<inter> cpus_allowed (tasks s p)) = xs @ hrq # ys \<and>
           highest_prio_scan s p this_rq =
             (rq_offset_deadline s (tasks s p) this_rq hrq, rq_prio (cpu_rq s hrq), hrq) \<and>
           (\<forall>c \<in> set xs. busier_rq s (tasks s p) this_rq hrq c) \<and>
           (\<forall>c \<in> set ys. \<not> busier_rq s (tasks s p) this_rq c hrq)"
proof -
  let ?cpus = "cpus_of_mask s (cpu_online_map s \<inter> cpus_allowed (tasks s p))"
  let ?t = "tasks s p"
  obtain ld hp hrq where r: "preempt_scan s ?t this_rq ?cpus (0, - 1, this_rq) = (ld, hp, hrq)"
    by (cases "preempt_scan s ?t this_rq ?cpus (0, - 1, this_rq)") auto
  from ne obtain c0 where c0: "c0 \<in> set ?cpus"
    by (cases ?cpus) auto
  with pos have "0 \<le> rq_prio (cpu_rq s c0)"
    by blast
  then have "scan_better (rq_prio (cpu_rq s c0), rq_offset_deadline s ?t this_rq c0) (- 1, 0)"
    by (simp add: scan_better_def)
  with c0 have "\<not> (\<forall>c \<in> set ?cpus.
      \<not> scan_better (rq_prio (cpu_rq s c), rq_offset_deadline s ?t this_rq c) (- 1, 0))"
    by blast
  with preempt_scan_result [OF r] obtain xs ys where d:
    "?cpus = xs @ hrq # ys"
    "hp = rq_prio (cpu_rq s hrq)" "ld = rq_offset_deadline s ?t this_rq hrq"
    "\<forall>c \<in> set xs. scan_better (hp, ld) (rq_prio (cpu_rq s c), rq_offset_deadline s ?t this_rq c)"
    "\<forall>c \<in> set ys. \<not> scan_better (rq_prio (cpu_rq s c), rq_offset_deadline s ?t this_rq c) (hp, ld)"
    by blast
  from r d(2,3) have
    "highest_prio_scan s p this_rq = (rq_offset_deadline s ?t this_rq hrq, rq_prio (cpu_rq s hrq), hrq)"
    by (simp add: highest_prio_scan_def)
  moreover from d(2,3,4) have "\<forall>c \<in> set xs. busier_rq s ?t this_rq hrq c"
    by (simp add: scan_better_def busier_rq_def)
  moreover from d(2,3,5) have "\<forall>c \<in> set ys. \<not> busier_rq s ?t this_rq c hrq"
    by (simp add: scan_better_def busier_rq_def)
  ultimately show ?thesis
    using d(1) by blast
qed

lemma cpus_of_mask_mem: "c \<in> set (cpus_of_mask s m) \<Longrightarrow> c \<in> m \<and> c < NR_CPUS s"
  by (simp add: cpus_of_mask_def)

lemma cpus_of_mask_online:
  "cpus_of_mask s (cpu_online_map s \<inter> cpus_allowed t) \<noteq> [] \<Longrightarrow> online_cpus s t"
proof -
  assume "cpus_of_mask s (cpu_online_map s \<inter> cpus_allowed t) \<noteq> []"
  then obtain c where "c \<in> set (cpus_of_mask s (cpu_online_map s \<inter> cpus_allowed t))"
    by (cases "cpus_of_mask s (cpu_online_map s \<inter> cpus_allowed t)") auto
  then have "c \<in> cpu_online_map s \<inter> cpus_allowed t"
    by (simp add: cpus_of_mask_def)
  then show ?thesis
    unfolding online_cpus_def by blast
qed

lemma resched_task_need_resched:
  "need_resched (tasks (resched_task s q) r) = (need_resched (tasks s r) \<or> r = q)"
  by (simp add: resched_task_def)

lemma busier_rq_asym:
  "busier_rq s t this_rq a b \<Longrightarrow> \<not> busier_rq s t this_rq b a"
  by (auto simp add: busier_rq_def)

lemma busier_rq_irrefl: "\<not> busier_rq s t this_rq a a"
  by (simp add: busier_rq_def)

text \<open>
  Claim C2. \<^verbatim>\<open>can_preempt(p, prio, deadline, policy)\<close> holds exactly when the priority
  number of \<open>p\<close> is strictly lower than \<open>prio\<close>, or equal to it with the deadline of \<open>p\<close>
  strictly earlier than \<open>deadline\<close>. When \<^verbatim>\<open>try_preempt\<close> finds no suitable idle CPU and
  reaches its scan (the task is not \<^verbatim>\<open>SCHED_IDLEPRIO\<close>, some allowed CPU is online, and the
  priorities of the scanned runqueues lie in the priority range, so are not negative), the
  CPU \<open>hrq\<close> it chooses is an allowed online CPU, the busiest one: no scanned CPU is busier
  than \<open>hrq\<close>, and \<open>hrq\<close> is strictly busier than every CPU scanned before it. So \<open>hrq\<close> is
  the first CPU, in increasing order, among those with the highest \<^verbatim>\<open>rq_prio\<close> and, within
  them, the latest offset deadline. \<^verbatim>\<open>try_preempt\<close> marks the current task of \<open>hrq\<close> for
  reschedule exactly when \<^verbatim>\<open>can_preempt\<close> holds of the task against the \<^verbatim>\<open>rq_prio\<close>,
  \<^verbatim>\<open>rq_deadline\<close> and \<^verbatim>\<open>rq_policy\<close> of \<open>hrq\<close>, and the flag of every other task is as
  before.
\<close>

theorem try_preempt_can_preempt:
  "(can_preempt t pr dl pol \<longleftrightarrow> prio t < pr \<or> (prio t = pr \<and> deadline t < dl)) \<and>
   (\<not> suitable_idle_cpus s (tasks s p) \<and> policy (tasks s p) \<noteq> SCHED_IDLEPRIO \<and>
    cpus_of_mask s (cpu_online_map s \<inter> cpus_allowed (tasks s p)) \<noteq> [] \<and>
    (\<forall>c \<in> set (cpus_of_mask s (cpu_online_map s \<inter> cpus_allowed (tasks s p))).
       0 \<le> rq_prio (cpu_rq s c)) \<longrightarrow>
    (\<exists>xs hrq ys.
       cpus_of_mask s (cpu_online_map s \<inter> cpus_allowed (tasks s p)) = xs @ hrq # ys \<and>
       hrq \<in> cpu_online_map s \<and> hrq \<in> cpus_allowed (tasks s p) \<and>
       (\<forall>c \<in> set (cpus_of_mask s (cpu_online_map s \<inter> cpus_allowed (tasks s p))).
          \<not> busier_rq s (tasks s p) this_rq c hrq) \<and>
       (\<forall>c \<in> set xs. busier_rq s (tasks s p) this_rq hrq c) \<and>
       try_preempt s p this_rq =
         (if can_preempt (tasks s p) (rq_prio (cpu_rq s hrq)) (rq_deadline (cpu_rq s hrq))
               (rq_policy (cpu_rq s hrq))
          then resched_task s (curr (cpu_rq s hrq)) else s) \<and>
       (\<forall>q. need_resched (tasks (try_preempt s p this_rq) q) \<longleftrightarrow>
            need_resched (tasks s q) \<or>
            (q = curr (cpu_rq s hrq) \<and>
             can_preempt (tasks s p) (rq_prio (cpu_rq s hrq)) (rq_deadline (cpu_rq s hrq))
               (rq_policy (cpu_rq s hrq))))))"
proof (intro conjI impI)
  show "can_preempt t pr dl pol \<longleftrightarrow> prio t < pr \<or> (prio t = pr \<and> deadline t < dl)"
    by (auto simp add: can_preempt_def deadline_before_def)
next
  let ?cpus = "cpus_of_mask s (cpu_online_map s \<inter> cpus_allowed (tasks s p))"
  assume a: "\<not> suitable_idle_cpus s (tasks s p) \<and> policy (tasks s p) \<noteq> SCHED_IDLEPRIO \<and>
    ?cpus \<noteq> [] \<and> (\<forall>c \<in> set ?cpus. 0 \<le> rq_prio (cpu_rq s c))"
  then have ne: "?cpus \<noteq> []" and pos: "\<forall>c \<in> set ?cpus. 0 \<le> rq_prio (cpu_rq s c)"
    by simp_all
  from highest_prio_scan_busiest [OF ne pos, of this_rq] obtain xs hrq ys where d:
    "?cpus = xs @ hrq # ys"
    "highest_prio_scan s p this_rq =
       (rq_offset_deadline s (tasks s p) this_rq hrq, rq_prio (cpu_rq s hrq), hrq)"
    "\<forall>c \<in> set xs. busier_rq s (tasks s p) this_rq hrq c"
    "\<forall>c \<in> set ys. \<not> busier_rq s (tasks s p) this_rq c hrq"
    by blast
  from d(1) have "hrq \<in> set ?cpus"
    by simp
  then have m: "hrq \<in> cpu_online_map s" "hrq \<in> cpus_allowed (tasks s p)"
    using cpus_of_mask_mem [of hrq s "cpu_online_map s \<inter> cpus_allowed (tasks s p)"] by simp_all
  have "\<forall>c \<in> set (xs @ hrq # ys). \<not> busier_rq s (tasks s p) this_rq c hrq"
    using d(3,4) busier_rq_asym [of s "tasks s p" this_rq hrq]
      busier_rq_irrefl [of s "tasks s p" this_rq hrq]
    by auto
  with d(1) have top: "\<forall>c \<in> set ?cpus. \<not> busier_rq s (tasks s p) this_rq c hrq"
    by simp
  from ne have on: "online_cpus s (tasks s p)"
    by (rule cpus_of_mask_online)
  let ?cp = "can_preempt (tasks s p) (rq_prio (cpu_rq s hrq)) (rq_deadline (cpu_rq s hrq))
               (rq_policy (cpu_rq s hrq))"
  from a on d(2) have e: "try_preempt s p this_rq =
      (if ?cp then resched_task s (curr (cpu_rq s hrq)) else s)"
    by (simp add: try_preempt_def)
  have f: "\<forall>q. need_resched (tasks (try_preempt s p this_rq) q) \<longleftrightarrow>
            need_resched (tasks s q) \<or> (q = curr (cpu_rq s hrq) \<and> ?cp)"
    unfolding e by (simp add: resched_task_need_resched)
  from d(1,3) top m e f
  show "\<exists>xs hrq ys.
       ?cpus = xs @ hrq # ys \<and>
       hrq \<in> cpu_online_map s \<and> hrq \<in> cpus_allowed (tasks s p) \<and>
       (\<forall>c \<in> set ?cpus. \<not> busier_rq s (tasks s p) this_rq c hrq) \<and>
       (\<forall>c \<in> set xs. busier_rq s (tasks s p) this_rq hrq c) \<and>
       try_preempt s p this_rq =
         (if can_preempt (tasks s p) (rq_prio (cpu_rq s hrq)) (rq_deadline (cpu_rq s hrq))
               (rq_policy (cpu_rq s hrq))
          then resched_task s (curr (cpu_rq s hrq)) else s) \<and>
       (\<forall>q. need_resched (tasks (try_preempt s p this_rq) q) \<longleftrightarrow>
            need_resched (tasks s q) \<or>
            (q = curr (cpu_rq s hrq) \<and>
             can_preempt (tasks s p) (rq_prio (cpu_rq s hrq)) (rq_deadline (cpu_rq s hrq))
               (rq_policy (cpu_rq s hrq))))"
    by blast
qed

text \<open>
  In the three-CPU example the scan passes over CPU 0, whose runqueue deadline is the
  latest but whose offset deadline is not, and over CPU 2, whose deadline is later still
  but whose priority number is lower: it chooses CPU 1. Task 2 has the earlier deadline,
  so task 11 is marked, and tasks 10 and 12 are not.
\<close>

lemma ex_smp_cpus:
  "cpus_of_mask ex_smp_state (cpu_online_map ex_smp_state \<inter> cpus_allowed (tasks ex_smp_state 2)) =
     [0, 1, 2]"
  by code_simp

lemma ex_smp_guards:
  "\<not> suitable_idle_cpus ex_smp_state (tasks ex_smp_state 2)"
  "policy (tasks ex_smp_state 2) \<noteq> SCHED_IDLEPRIO"
  "0 \<le> rq_prio (cpu_rq ex_smp_state 0)"
  "0 \<le> rq_prio (cpu_rq ex_smp_state 1)"
  "0 \<le> rq_prio (cpu_rq ex_smp_state 2)"
  by code_simp+

lemma ex_smp_busier:
  "busier_rq ex_smp_state (tasks ex_smp_state 2) 1 1 0"
  "busier_rq ex_smp_state (tasks ex_smp_state 2) 1 1 2"
  by code_simp+

lemma ex_smp_rq1:
  "can_preempt (tasks ex_smp_state 2) (rq_prio (cpu_rq ex_smp_state 1))
     (rq_deadline (cpu_rq ex_smp_state 1)) (rq_policy (cpu_rq ex_smp_state 1))"
  "curr (cpu_rq ex_smp_state 1) = 11"
  "\<not> need_resched (tasks ex_smp_state 10)"
  "\<not> need_resched (tasks ex_smp_state 12)"
  "can_preempt (tasks ex_smp_state 2) 102 3000 SCHED_NORMAL"
  by code_simp+

theorem try_preempt_can_preempt_witness:
  "can_preempt (tasks ex_smp_state 2) 102 3000 SCHED_NORMAL \<and>
   \<not> suitable_idle_cpus ex_smp_state (tasks ex_smp_state 2) \<and>
   policy (tasks ex_smp_state 2) \<noteq> SCHED_IDLEPRIO \<and>
   cpus_of_mask ex_smp_state
     (cpu_online_map ex_smp_state \<inter> cpus_allowed (tasks ex_smp_state 2)) = [0, 1, 2] \<and>
   0 \<le> rq_prio (cpu_rq ex_smp_state 0) \<and> 0 \<le> rq_prio (cpu_rq ex_smp_state 1) \<and>
   0 \<le> rq_prio (cpu_rq ex_smp_state 2) \<and>
   busier_rq ex_smp_state (tasks ex_smp_state 2) 1 1 0 \<and>
   busier_rq ex_smp_state (tasks ex_smp_state 2) 1 1 2 \<and>
   try_preempt ex_smp_state 2 1 = resched_task ex_smp_state 11 \<and>
   need_resched (tasks (try_preempt ex_smp_state 2 1) 11) \<and>
   \<not> need_resched (tasks (try_preempt ex_smp_state 2 1) 10) \<and>
   \<not> need_resched (tasks (try_preempt ex_smp_state 2 1) 12)"
proof -
  let ?s = ex_smp_state
  let ?cpus = "cpus_of_mask ?s (cpu_online_map ?s \<inter> cpus_allowed (tasks ?s 2))"
  have pos: "\<forall>c \<in> set ?cpus. 0 \<le> rq_prio (cpu_rq ?s c)"
    using ex_smp_guards(3,4,5) by (simp add: ex_smp_cpus)
  have ne: "?cpus \<noteq> []"
    by (simp add: ex_smp_cpus)
  from try_preempt_can_preempt [where s = ?s and p = 2 and this_rq = 1
      and t = "tasks ?s 2" and pr = 102 and dl = 3000 and pol = SCHED_NORMAL]
    ex_smp_guards(1,2) ne pos
  obtain xs hrq ys where d:
    "?cpus = xs @ hrq # ys"
    "\<forall>c \<in> set ?cpus. \<not> busier_rq ?s (tasks ?s 2) 1 c hrq"
    "try_preempt ?s 2 1 =
       (if can_preempt (tasks ?s 2) (rq_prio (cpu_rq ?s hrq)) (rq_deadline (cpu_rq ?s hrq))
             (rq_policy (cpu_rq ?s hrq))
        then resched_task ?s (curr (cpu_rq ?s hrq)) else ?s)"
    "\<forall>q. need_resched (tasks (try_preempt ?s 2 1) q) \<longleftrightarrow>
         need_resched (tasks ?s q) \<or>
         (q = curr (cpu_rq ?s hrq) \<and>
          can_preempt (tasks ?s 2) (rq_prio (cpu_rq ?s hrq)) (rq_deadline (cpu_rq ?s hrq))
            (rq_policy (cpu_rq ?s hrq)))"
    by blast
  from d(1) have "hrq \<in> set ?cpus"
    by simp
  then have "hrq = 0 \<or> hrq = 1 \<or> hrq = 2"
    by (simp add: ex_smp_cpus)
  moreover from d(2) have "\<not> busier_rq ?s (tasks ?s 2) 1 1 hrq"
    by (simp add: ex_smp_cpus)
  ultimately have h: "hrq = 1"
    using ex_smp_busier by auto
  from d(3) have e: "try_preempt ?s 2 1 = resched_task ?s 11"
    unfolding h by (simp only: ex_smp_rq1 if_True)
  from d(4) have f: "\<forall>q. need_resched (tasks (try_preempt ?s 2 1) q) \<longleftrightarrow>
      need_resched (tasks ?s q) \<or> q = 11"
    unfolding h by (simp only: ex_smp_rq1 simp_thms)
  from f ex_smp_rq1(3,4) have
    "need_resched (tasks (try_preempt ?s 2 1) 11)"
    "\<not> need_resched (tasks (try_preempt ?s 2 1) 10)"
    "\<not> need_resched (tasks (try_preempt ?s 2 1) 12)"
    by simp_all
  with e ex_smp_guards ex_smp_busier ex_smp_rq1(5) show ?thesis
    by (simp only: ex_smp_cpus simp_thms)
qed

subsection \<open>Waking a task that is already active\<close>

text \<open>
  Claim C10. \<^verbatim>\<open>try_to_wake_up(p, state, wake_flags)\<close> on a task whose state matches
  the mask and that is queued or running returns 0, and the only change is
  \<^verbatim>\<open>p->state = TASK_RUNNING\<close>: the global runqueue (its bands, \<^verbatim>\<open>nr_running\<close> and
  \<^verbatim>\<open>qnr\<close>), the per-CPU runqueues and every other task are as before.
\<close>

theorem try_to_wake_up_active:
  assumes "state (tasks s p) AND wstate \<noteq> 0"
    and "task_queued s p \<or> task_running (tasks s p)"
  shows "fst (try_to_wake_up s p wstate wake_flags) = 0 \<and>
         snd (try_to_wake_up s p wstate wake_flags) =
           s\<lparr>tasks := (tasks s)(p := (tasks s p)\<lparr>state := TASK_RUNNING s\<rparr>)\<rparr> \<and>
         grq (snd (try_to_wake_up s p wstate wake_flags)) = grq s \<and>
         runqueues (snd (try_to_wake_up s p wstate wake_flags)) = runqueues s \<and>
         (\<forall>q. q \<noteq> p \<longrightarrow> tasks (snd (try_to_wake_up s p wstate wake_flags)) q = tasks s q)"
  using assms by (auto simp add: try_to_wake_up_def Let_def)

theorem try_to_wake_up_active_witness:
  "state (tasks ex_queued_state 1) AND 3 \<noteq> 0 \<and>
   task_queued ex_queued_state 1 \<and>
   fst (try_to_wake_up ex_queued_state 1 3 0) = 0 \<and>
   state (tasks (snd (try_to_wake_up ex_queued_state 1 3 0)) 1) = 0 \<and>
   qnr (grq (snd (try_to_wake_up ex_queued_state 1 3 0))) = 1 \<and>
   nr_running (grq (snd (try_to_wake_up ex_queued_state 1 3 0))) = 1 \<and>
   queue (grq (snd (try_to_wake_up ex_queued_state 1 3 0))) 102 = [1]"
proof -
  have q: "task_queued ex_queued_state 1"
    unfolding task_queued_def
    by (rule bexI [of _ 102]) (simp_all add: ex_queued_state_def ex_state_def)
  have m: "state (tasks ex_queued_state 1) AND 3 \<noteq> 0"
    by (simp add: ex_queued_state_def ex_task_def)
  from try_to_wake_up_active [of ex_queued_state 1 3 0, OF m] q m
  show ?thesis
    by (simp add: ex_queued_state_def ex_state_def ex_grq_def ex_task_def)
qed

subsection \<open>Nice levels\<close>

lemma nice_round_trip:
  assumes "- 20 \<le> n" and "n \<le> 19"
  shows "PRIO_TO_NICE s (NICE_TO_PRIO s n) = n"
proof -
  have "PRIO_TO_NICE s (NICE_TO_PRIO s n) = wrap32 (MAX_RT_PRIO s + n + 20 - MAX_RT_PRIO s - 20)"
    by (simp add: PRIO_TO_NICE_def NICE_TO_PRIO_def wrap32_wrap32_add wrap32_wrap32_diff)
  also have "\<dots> = wrap32 n" by simp
  also have "\<dots> = n" using assms by (simp add: wrap32_id)
  finally show ?thesis .
qed

lemma resched_task_static_prio [simp]:
  "static_prio (tasks (resched_task s q) p) = static_prio (tasks s p)"
  by (simp add: resched_task_def)

lemma resched_task_MAX_RT_PRIO [simp]:
  "MAX_RT_PRIO (resched_task s q) = MAX_RT_PRIO s"
  by (simp add: resched_task_def)

lemma try_preempt_static_prio [simp]:
  "static_prio (tasks (try_preempt s q r) p) = static_prio (tasks s p)"
  by (simp add: try_preempt_def resched_best_idle_def Let_def split: prod.splits)

lemma try_preempt_MAX_RT_PRIO [simp]:
  "MAX_RT_PRIO (try_preempt s q r) = MAX_RT_PRIO s"
  by (simp add: try_preempt_def resched_best_idle_def Let_def split: prod.splits)

lemma enqueue_task_static_prio [simp]:
  "static_prio (tasks (enqueue_task s q) p) = static_prio (tasks s p)"
  by (simp add: enqueue_task_def Let_def)

lemma enqueue_task_MAX_RT_PRIO [simp]:
  "MAX_RT_PRIO (enqueue_task s q) = MAX_RT_PRIO s"
  by (simp add: enqueue_task_def Let_def)

lemma dequeue_task_tasks [simp]: "tasks (dequeue_task s q) = tasks s"
  by (simp add: dequeue_task_def Let_def)

lemma dequeue_task_MAX_RT_PRIO [simp]: "MAX_RT_PRIO (dequeue_task s q) = MAX_RT_PRIO s"
  by (simp add: dequeue_task_def Let_def)

lemma update_clocks_tasks [simp]: "tasks (update_clocks s r) = tasks s"
  by (simp add: update_clocks_def update_rq_clock_def Let_def)

lemma update_clocks_MAX_RT_PRIO [simp]: "MAX_RT_PRIO (update_clocks s r) = MAX_RT_PRIO s"
  by (simp add: update_clocks_def update_rq_clock_def Let_def)

lemma effective_prio_static_prio [simp]:
  "static_prio (fst (effective_prio s t)) = static_prio t"
  by (simp add: effective_prio_def Let_def)

lemma set_user_nice_static_prio:
  assumes "- 20 \<le> n" and "n \<le> 19"
  shows "static_prio (tasks (set_user_nice s p n) p) = NICE_TO_PRIO s n \<or>
         (set_user_nice s p n = s \<and> TASK_NICE s (tasks s p) = n)"
  using assms
  by (simp add: set_user_nice_def Let_def adjust_deadline_def reset_rq_task_def split_beta)

lemma set_user_nice_MAX_RT_PRIO: "MAX_RT_PRIO (set_user_nice s p n) = MAX_RT_PRIO s"
  by (simp add: set_user_nice_def Let_def adjust_deadline_def reset_rq_task_def split_beta)

text \<open>
  Claim C9. For a task whose policy is not a realtime policy and a nice value \<open>n\<close>
  within \<open>-20..19\<close>, \<^verbatim>\<open>task_nice\<close> after \<^verbatim>\<open>set_user_nice(p, n)\<close> is \<open>n\<close>.
\<close>

theorem set_user_nice_task_nice:
  assumes "\<not> has_rt_policy (tasks s p)" and "- 20 \<le> n" and "n \<le> 19"
  shows "task_nice (set_user_nice s p n) p = n"
proof -
  from set_user_nice_static_prio [OF assms(2,3), of s p]
  show ?thesis
  proof
    assume "static_prio (tasks (set_user_nice s p n) p) = NICE_TO_PRIO s n"
    then have "task_nice (set_user_nice s p n) p = PRIO_TO_NICE s (NICE_TO_PRIO s n)"
      by (simp add: task_nice_def TASK_NICE_def PRIO_TO_NICE_def set_user_nice_MAX_RT_PRIO)
    with assms show ?thesis by (simp add: nice_round_trip)
  next
    assume "set_user_nice s p n = s \<and> TASK_NICE s (tasks s p) = n"
    then show ?thesis by (simp add: task_nice_def)
  qed
qed

theorem set_user_nice_task_nice_witness:
  "\<not> has_rt_policy (tasks ex_queued_state 1) \<and> - 20 \<le> (5::int) \<and> (5::int) \<le> 19 \<and>
   task_nice ex_queued_state 1 = 0 \<and>
   task_nice (set_user_nice ex_queued_state 1 5) 1 = 5"
proof -
  have h: "\<not> has_rt_policy (tasks ex_queued_state 1)"
    by (simp add: has_rt_policy_def is_rt_policy_def ex_queued_state_def ex_task_def)
  have "task_nice ex_queued_state 1 = 0"
    by (simp add: task_nice_def TASK_NICE_def PRIO_TO_NICE_def ex_queued_state_def
        ex_state_def ex_task_def wrap32_id)
  with set_user_nice_task_nice [OF h, of 5] h show ?thesis by simp
qed

subsection \<open>The tick and SCHED_FIFO\<close>

lemma pc_user_time_rq [simp]:
  "rq_policy (runqueues (pc_user_time s c p pc ns) d) = rq_policy (runqueues s d)"
  "rq_time_slice (runqueues (pc_user_time s c p pc ns) d) = rq_time_slice (runqueues s d)"
  "clock (runqueues (pc_user_time s c p pc ns) d) = clock (runqueues s d)"
  "rq_last_ran (runqueues (pc_user_time s c p pc ns) d) = rq_last_ran (runqueues s d)"
  "HZ (pc_user_time s c p pc ns) = HZ s"
  by (simp_all add: pc_user_time_def Let_def)

lemma pc_system_time_rq [simp]:
  "rq_policy (runqueues (pc_system_time s c p ctx pc ns) d) = rq_policy (runqueues s d)"
  "rq_time_slice (runqueues (pc_system_time s c p ctx pc ns) d) = rq_time_slice (runqueues s d)"
  "clock (runqueues (pc_system_time s c p ctx pc ns) d) = clock (runqueues s d)"
  "rq_last_ran (runqueues (pc_system_time s c p ctx pc ns) d) = rq_last_ran (runqueues s d)"
  "HZ (pc_system_time s c p ctx pc ns) = HZ s"
  by (simp_all add: pc_system_time_def Let_def)

lemma pc_idle_time_rq [simp]:
  "rq_policy (runqueues (pc_idle_time s c pc) d) = rq_policy (runqueues s d)"
  "rq_time_slice (runqueues (pc_idle_time s c pc) d) = rq_time_slice (runqueues s d)"
  "clock (runqueues (pc_idle_time s c pc) d) = clock (runqueues s d)"
  "rq_last_ran (runqueues (pc_idle_time s c pc) d) = rq_last_ran (runqueues s d)"
  "HZ (pc_idle_time s c pc) = HZ s"
  by (simp_all add: pc_idle_time_def Let_def)

lemma update_cpu_clock_not_fifo:
  assumes "rq_policy (runqueues s c) \<noteq> SCHED_FIFO" and "p \<noteq> idle (runqueues s c)"
  shows "rq_time_slice (runqueues (update_cpu_clock s c p tick ctx) c) =
         wrap32 (rq_time_slice (runqueues s c) -
                 NS_TO_US (niffy_diff s (sint (clock (runqueues s c) - rq_last_ran (runqueues s c))) 1))"
  using assms by (simp add: update_cpu_clock_def Let_def niffy_diff_def JIFFIES_TO_NS_def)

lemma pc_time_tasks [simp]:
  "time_slice (tasks (pc_user_time s c p pc ns) q) = time_slice (tasks s q)"
  "need_resched (tasks (pc_user_time s c p pc ns) q) = need_resched (tasks s q)"
  "time_slice (tasks (pc_system_time s c p ctx pc ns) q) = time_slice (tasks s q)"
  "need_resched (tasks (pc_system_time s c p ctx pc ns) q) = need_resched (tasks s q)"
  "tasks (pc_idle_time s c pc) = tasks s"
  by (simp_all add: pc_user_time_def pc_system_time_def pc_idle_time_def Let_def)

lemma update_cpu_clock_fifo:
  assumes "rq_policy (runqueues s c) = SCHED_FIFO"
  shows "rq_time_slice (runqueues (update_cpu_clock s c p tick ctx) c) = rq_time_slice (runqueues s c)"
    and "rq_policy (runqueues (update_cpu_clock s c p tick ctx) c) = SCHED_FIFO"
    and "time_slice (tasks (update_cpu_clock s c p tick ctx) q) = time_slice (tasks s q)"
    and "need_resched (tasks (update_cpu_clock s c p tick ctx) q) = need_resched (tasks s q)"
  using assms by (simp_all add: update_cpu_clock_def Let_def)

lemma no_iso_tick_frame [simp]:
  "runqueues (no_iso_tick s) = runqueues s" "tasks (no_iso_tick s) = tasks s"
  by (simp_all add: no_iso_tick_def clear_iso_refractory_def Let_def)

lemma iso_tick_frame [simp]:
  "runqueues (iso_tick s) = runqueues s" "tasks (iso_tick s) = tasks s"
  by (simp_all add: iso_tick_def)

lemma task_running_tick_fifo:
  assumes "rq_policy (runqueues s c) = SCHED_FIFO"
  shows "runqueues (task_running_tick s c) = runqueues s"
    and "tasks (task_running_tick s c) = tasks s"
  using assms by (simp_all add: task_running_tick_def iso_queue_def Let_def)

lemma ex_tick_normal:
  "rq_time_slice (runqueues (update_cpu_clock (ex_tick_state SCHED_NORMAL 102) 0 1 True ex_ctx) 0) = 118"
proof -
  have a: "rq_policy (runqueues (ex_tick_state SCHED_NORMAL 102) 0) \<noteq> SCHED_FIFO"
    "1 \<noteq> idle (runqueues (ex_tick_state SCHED_NORMAL 102) 0)"
    by (simp_all add: ex_tick_state_def ex_rq_def)
  have b: "niffy_diff (ex_tick_state SCHED_NORMAL 102) 5000000 1 = 5000000"
    by (simp add: niffy_diff_def JIFFIES_TO_NS_def ex_tick_state_def ex_state_def wrap32_id
        signed_divide_int_def)
  have c: "clock (runqueues (ex_tick_state SCHED_NORMAL 102) 0) = 5000000"
    "rq_last_ran (runqueues (ex_tick_state SCHED_NORMAL 102) 0) = 0"
    "rq_time_slice (runqueues (ex_tick_state SCHED_NORMAL 102) 0) = 5000"
    by (simp_all add: ex_tick_state_def ex_rq_def)
  show ?thesis
    unfolding update_cpu_clock_not_fifo [OF a] c
    by (simp add: b NS_TO_US_def wrap32_id)
qed


text \<open>
  Claim C6. While the policy of the running task (\<^verbatim>\<open>rq->rq_policy\<close>) is
  \<^verbatim>\<open>SCHED_FIFO\<close>, a tick leaves the remaining timeslice as it was:
  \<^verbatim>\<open>update_cpu_clock\<close> does not decrement \<^verbatim>\<open>rq->rq_time_slice\<close>,
  \<^verbatim>\<open>task_running_tick\<close> changes neither the runqueue nor any task (it returns before
  the expiry handling), and so \<^verbatim>\<open>scheduler_tick\<close> as a whole changes neither
  \<^verbatim>\<open>rq->rq_time_slice\<close> nor the \<^verbatim>\<open>time_slice\<close> and \<^verbatim>\<open>TIF_NEED_RESCHED\<close> of any task.
\<close>

theorem fifo_tick_keeps_time_slice:
  assumes "rq_policy (runqueues s c) = SCHED_FIFO"
  shows "rq_time_slice (runqueues (update_cpu_clock s c p tick ctx) c) =
           rq_time_slice (runqueues s c) \<and>
         runqueues (task_running_tick s c) = runqueues s \<and>
         tasks (task_running_tick s c) = tasks s \<and>
         rq_time_slice (runqueues (scheduler_tick s c ctx) c) = rq_time_slice (runqueues s c) \<and>
         (\<forall>q. time_slice (tasks (scheduler_tick s c ctx) q) = time_slice (tasks s q) \<and>
              need_resched (tasks (scheduler_tick s c ctx) q) = need_resched (tasks s q))"
proof -
  let ?s1 = "update_rq_clock s c"
  let ?s2 = "update_cpu_clock ?s1 c (curr (runqueues ?s1 c)) True ctx"
  have p1: "rq_policy (runqueues ?s1 c) = SCHED_FIFO"
    using assms by (simp add: update_rq_clock_def)
  have t1: "rq_time_slice (runqueues ?s1 c) = rq_time_slice (runqueues s c)"
    "tasks ?s1 = tasks s"
    by (simp_all add: update_rq_clock_def)
  note u = update_cpu_clock_fifo [OF p1, of "curr (runqueues ?s1 c)" True ctx]
  note r = task_running_tick_fifo [OF u(2)]
  have "rq_time_slice (runqueues (scheduler_tick s c ctx) c) = rq_time_slice (runqueues s c)"
    using u(1) r(1) t1 by (simp add: scheduler_tick_def Let_def)
  moreover have "time_slice (tasks (scheduler_tick s c ctx) q) = time_slice (tasks s q)" for q
    using u(3) r(2) t1 by (simp add: scheduler_tick_def Let_def)
  moreover have "need_resched (tasks (scheduler_tick s c ctx) q) = need_resched (tasks s q)" for q
    using u(4) r(2) t1 by (simp add: scheduler_tick_def Let_def)
  ultimately show ?thesis
    using update_cpu_clock_fifo (1) [OF assms] task_running_tick_fifo [OF assms] by simp
qed

text \<open>
  A tick on a \<^verbatim>\<open>SCHED_FIFO\<close> task with 5000 us left leaves 5000 us; the same tick on a
  \<^verbatim>\<open>SCHED_NORMAL\<close> task takes \<open>5000000 >> 10 = 4882\<close> us off.
\<close>

theorem fifo_tick_keeps_time_slice_witness:
  "rq_policy (runqueues (ex_tick_state SCHED_FIFO 50) 0) = SCHED_FIFO \<and>
   rq_time_slice (runqueues (ex_tick_state SCHED_FIFO 50) 0) = 5000 \<and>
   rq_time_slice (runqueues (update_cpu_clock (ex_tick_state SCHED_FIFO 50) 0 1 True ex_ctx) 0) = 5000 \<and>
   rq_time_slice (runqueues (scheduler_tick (ex_tick_state SCHED_FIFO 50) 0 ex_ctx) 0) = 5000 \<and>
   rq_time_slice (runqueues (update_cpu_clock (ex_tick_state SCHED_NORMAL 102) 0 1 True ex_ctx) 0) = 118"
proof -
  have h: "rq_policy (runqueues (ex_tick_state SCHED_FIFO 50) 0) = SCHED_FIFO"
    by (simp add: ex_tick_state_def ex_rq_def)
  have v: "rq_time_slice (runqueues (ex_tick_state SCHED_FIFO 50) 0) = 5000"
    by (simp add: ex_tick_state_def ex_rq_def)
  from fifo_tick_keeps_time_slice [OF h, of 1 True ex_ctx] h v ex_tick_normal
  show ?thesis by simp
qed

subsection \<open>Refilling the timeslice\<close>

lemma prio_ratios_table:
  "sched_init_prio_ratios =
     [128, 140, 154, 169, 185, 203, 223, 245, 269, 295, 324, 356, 391, 430, 473, 520, 572,
      629, 691, 760, 836, 919, 1010, 1111, 1222, 1344, 1478, 1625, 1787, 1965, 2161, 2377,
      2614, 2875, 3162, 3478, 3825, 4207, 4627, 5089]"
  by code_simp

lemma prio_ratios_length: "length sched_init_prio_ratios = 40"
  by (simp add: prio_ratios_table)

lemma prio_ratios_ge: "i < 40 \<Longrightarrow> 128 \<le> sched_init_prio_ratios ! i"
proof -
  have "list_all (\<lambda>x. 128 \<le> x) sched_init_prio_ratios"
    by (simp add: prio_ratios_table)
  then show "i < 40 \<Longrightarrow> 128 \<le> sched_init_prio_ratios ! i"
    by (simp add: list_all_length prio_ratios_length)
qed

lemma prio_ratios_step:
  "\<forall>i \<in> {1..39}. sched_init_prio_ratios ! i = sched_init_prio_ratios ! (i - 1) * 11 div 10"
proof -
  have "list_all (\<lambda>i. sched_init_prio_ratios ! i = sched_init_prio_ratios ! (i - 1) * 11 div 10)
          [1 ..< 40]"
    unfolding prio_ratios_table by code_simp
  then have "\<forall>i \<in> set [1 ..< 40].
      sched_init_prio_ratios ! i = sched_init_prio_ratios ! (i - 1) * 11 div 10"
    by (simp only: list_all_iff)
  moreover have "set [1 ..< 40] = {1..39::nat}"
    by auto
  ultimately show ?thesis by simp
qed

lemma MS_TO_NS_1: "MS_TO_NS 1 sdiv 128 = 8192"
  by (simp add: MS_TO_NS_def wrap32_id signed_divide_int_def)

text \<open>
  Claim C3, as the source has it. With the table that \<^verbatim>\<open>sched_init\<close> fills
  (\<open>prio_ratios[0] = 128\<close>, \<open>prio_ratios[i] = prio_ratios[i-1] * 11 / 10\<close> for \<open>i\<close> in
  \<open>1..39\<close>), a user priority within \<open>0..39\<close> and an \<^verbatim>\<open>rr_interval\<close> for which the
  \<^verbatim>\<open>int\<close> product does not overflow, \<^verbatim>\<open>time_slice_expired(p)\<close> sets \<^verbatim>\<open>p->time_slice\<close>
  to \<^verbatim>\<open>MS_TO_US(rr_interval)\<close>, which is \<open>rr_interval * 1024\<close>, and \<^verbatim>\<open>p->deadline\<close> to
  \<open>grq.niffies + prio_ratios[user_prio] * rr_interval * 8192\<close>, where \<open>8192\<close> is
  \<^verbatim>\<open>MS_TO_NS(1) / 128\<close>: the conversions shift by 10 and 20 bits.
\<close>

theorem time_slice_expired_refill:
  assumes "prio_ratios s = sched_init_prio_ratios"
    and "0 \<le> TASK_USER_PRIO s (tasks s p)" and "TASK_USER_PRIO s (tasks s p) < 40"
    and "0 \<le> rr_interval s"
    and "prio_ratios s ! nat (TASK_USER_PRIO s (tasks s p)) * rr_interval s * 8192 < 2 ^ 31"
  shows "time_slice (tasks (time_slice_expired s p) p) = rr_interval s * 1024 \<and>
         deadline (tasks (time_slice_expired s p) p) =
           niffies (grq s) +
           word_of_int (prio_ratios s ! nat (TASK_USER_PRIO s (tasks s p)) * rr_interval s * 8192) \<and>
         prio_ratios s ! 0 = 128 \<and>
         (\<forall>i \<in> {1..39}. prio_ratios s ! i = prio_ratios s ! (i - 1) * 11 div 10)"
proof -
  let ?up = "TASK_USER_PRIO s (tasks s p)"
  let ?ratio = "prio_ratios s ! nat ?up"
  have ratio: "128 \<le> ?ratio"
    using assms(1-3) by (simp add: prio_ratios_ge)
  have rr: "?ratio * rr_interval s \<le> ?ratio * rr_interval s * 8192"
    using ratio assms(4) by simp
  have rr1: "rr_interval s * 1024 \<le> ?ratio * rr_interval s * 8192"
  proof -
    have "rr_interval s * 1024 \<le> rr_interval s * 8192" using assms(4) by simp
    also have "\<dots> = 1 * (rr_interval s * 8192)" by simp
    also have "\<dots> \<le> ?ratio * (rr_interval s * 8192)"
      using ratio assms(4) by (intro mult_right_mono) simp_all
    finally show ?thesis by (simp add: mult.assoc)
  qed
  have nn: "0 \<le> ?ratio * rr_interval s"
    using ratio assms(4) by simp
  have w1: "wrap32 (rr_interval s * 1024) = rr_interval s * 1024"
    by (rule wrap32_id) (use rr1 assms(4,5) in linarith)+
  have w2: "wrap32 (?ratio * rr_interval s) = ?ratio * rr_interval s"
    by (rule wrap32_id) (use rr nn assms(5) in linarith)+
  have w3: "wrap32 (?ratio * rr_interval s * 8192) = ?ratio * rr_interval s * 8192"
    by (rule wrap32_id) (use nn assms(5) in linarith)+
  have ts: "time_slice (tasks (time_slice_expired s p) p) = rr_interval s * 1024"
    using w1 by (simp add: time_slice_expired_def Let_def timeslice_def MS_TO_US_def)
  have dl: "deadline (tasks (time_slice_expired s p) p) =
           niffies (grq s) + word_of_int (?ratio * rr_interval s * 8192)"
    using w2 w3
    by (simp add: time_slice_expired_def Let_def task_deadline_diff_def prio_deadline_diff_def
        TASK_USER_PRIO_def MS_TO_NS_1)
  have tab: "prio_ratios s ! 0 = 128"
    using assms(1) by (simp add: prio_ratios_table)
  show ?thesis
    using ts dl tab prio_ratios_step assms(1) by simp
qed

lemma TASK_USER_PRIO_time_slice [simp]:
  "TASK_USER_PRIO s (t\<lparr>time_slice := v\<rparr>) = TASK_USER_PRIO s t"
  by (simp add: TASK_USER_PRIO_def)

lemma ex_user_prio: "TASK_USER_PRIO ex_state (tasks ex_state 1) = 20"
  by (simp add: TASK_USER_PRIO_def USER_PRIO_def ex_state_def ex_task_def wrap32_id)

lemma ex_ratio: "prio_ratios ex_state ! 20 = 836"
  by (simp add: ex_state_def prio_ratios_table)

theorem time_slice_expired_refill_witness:
  "prio_ratios ex_state = sched_init_prio_ratios \<and>
   TASK_USER_PRIO ex_state (tasks ex_state 1) = 20 \<and>
   rr_interval ex_state = 6 \<and>
   time_slice (tasks (time_slice_expired ex_state 1) 1) = 6144 \<and>
   deadline (tasks (time_slice_expired ex_state 1) 1) = 41091072"
proof -
  have h1: "prio_ratios ex_state = sched_init_prio_ratios" by (simp add: ex_state_def)
  have h4: "rr_interval ex_state = 6" by (simp add: ex_state_def)
  have n: "niffies (grq ex_state) = 0" by (simp add: ex_state_def ex_grq_def)
  from time_slice_expired_refill [of ex_state 1] h1 h4 n ex_user_prio ex_ratio
  show ?thesis by simp
qed

text \<open>
  With \<open>rr_interval = 6\<close> and a nice-0 task (user priority 20, ratio 836) the timeslice
  becomes 6144 us, not 6000, and the deadline \<open>niffies + 41091072\<close> ns, not
  \<open>niffies + 836 * 6 * 7812\<close>.
\<close>

theorem time_slice_expired_counterexample:
  "time_slice (tasks (time_slice_expired ex_state 1) 1) = 6144 \<and>
   time_slice (tasks (time_slice_expired ex_state 1) 1) \<noteq> rr_interval ex_state * 1000 \<and>
   deadline (tasks (time_slice_expired ex_state 1) 1) = 41091072 \<and>
   deadline (tasks (time_slice_expired ex_state 1) 1) \<noteq>
     niffies (grq ex_state) +
     word_of_int (prio_ratios ex_state ! nat (TASK_USER_PRIO ex_state (tasks ex_state 1)) *
                  rr_interval ex_state * (1000000 div 128))"
proof -
  have ts: "time_slice (tasks (time_slice_expired ex_state 1) 1) = 6144"
    by (simp add: time_slice_expired_def Let_def timeslice_def MS_TO_US_def ex_state_def wrap32_id)
  have rr: "rr_interval ex_state = 6" by (simp add: ex_state_def)
  have n: "niffies (grq ex_state) = 0" by (simp add: ex_state_def ex_grq_def)
  have dl: "deadline (tasks (time_slice_expired ex_state 1) 1) = 41091072"
    using ex_user_prio ex_ratio rr n
    by (simp add: time_slice_expired_def Let_def task_deadline_diff_def prio_deadline_diff_def
        MS_TO_NS_1 wrap32_id)
  show ?thesis
    using ts dl rr n ex_user_prio ex_ratio by simp
qed

subsection \<open>Forking\<close>

lemma sdiv_2_nonneg: "0 \<le> x \<Longrightarrow> x sdiv 2 = x div (2::int)"
  by (simp add: signed_divide_int_def sgn_if)

lemma sched_fork_reset_policy:
  "policy t \<noteq> SCHED_FIFO \<Longrightarrow> policy (sched_fork_reset s t) \<noteq> SCHED_FIFO"
  by (simp add: sched_fork_reset_def Let_def)

lemma sched_fork_reset_frame [simp]:
  "deadline (sched_fork_reset s t) = deadline t"
  "need_resched (sched_fork_reset s t) = need_resched t"
  by (simp_all add: sched_fork_reset_def Let_def)

lemma sched_fork_setup_frame:
  "grq (sched_fork_setup s this_cpu current p) = grq s"
  "runqueues (sched_fork_setup s this_cpu current p) = runqueues s"
  "rr_interval (sched_fork_setup s this_cpu current p) = rr_interval s"
  "prio_ratios (sched_fork_setup s this_cpu current p) = prio_ratios s"
  "MAX_RT_PRIO (sched_fork_setup s this_cpu current p) = MAX_RT_PRIO s"
  "q \<noteq> p \<Longrightarrow> tasks (sched_fork_setup s this_cpu current p) q = tasks s q"
  "deadline (tasks (sched_fork_setup s this_cpu current p) p) = deadline (tasks s p)"
  by (simp_all add: sched_fork_setup_def Let_def set_task_cpu_def)

lemma sched_fork_setup_policy:
  "policy (tasks s p) \<noteq> SCHED_FIFO \<Longrightarrow>
   policy (tasks (sched_fork_setup s this_cpu current p) p) \<noteq> SCHED_FIFO"
  by (simp add: sched_fork_setup_def Let_def set_task_cpu_def sched_fork_reset_policy)

lemma sched_fork_share_halve:
  assumes "rq_time_slice (runqueues s (task_rq s current)) \<ge> 2 * RESCHED_US"
    and "p \<noteq> current"
  shows "rq_time_slice (runqueues (sched_fork_share s current p) (task_rq s current)) =
           rq_time_slice (runqueues s (task_rq s current)) div 2"
    and "time_slice (tasks (sched_fork_share s current p) p) =
           rq_time_slice (runqueues s (task_rq s current)) div 2"
    and "deadline (tasks (sched_fork_share s current p) p) = deadline (tasks s p)"
    and "tasks (sched_fork_share s current p) current = tasks s current"
  using assms
  by (simp_all add: sched_fork_share_def Let_def RESCHED_US_def sdiv_2_nonneg)

lemma sched_fork_share_refill:
  assumes "rq_time_slice (runqueues s (task_rq s current)) < 2 * RESCHED_US"
    and "p \<noteq> current"
  shows "rq_time_slice (runqueues (sched_fork_share s current p) (task_rq s current)) = 0"
    and "need_resched (tasks (sched_fork_share s current p) current)"
    and "time_slice (tasks (sched_fork_share s current p) p) = timeslice s"
    and "deadline (tasks (sched_fork_share s current p) p) =
           niffies (grq s) + prio_deadline_diff s (USER_PRIO s (static_prio (tasks s p)))"
    and "static_prio (tasks (sched_fork_share s current p) p) = static_prio (tasks s p)"
    and "deadline (tasks (sched_fork_share s current p) current) = deadline (tasks s current)"
  using assms
  by (simp_all add: sched_fork_share_def Let_def RESCHED_US_def set_tsk_need_resched_def
      time_slice_expired_def task_rq_def task_deadline_diff_def TASK_USER_PRIO_def
      prio_deadline_diff_def USER_PRIO_def timeslice_def)

lemma sched_fork_share_rq_deadline:
  "rq_deadline (runqueues (sched_fork_share s current p) r) = rq_deadline (runqueues s r)"
  by (simp add: sched_fork_share_def Let_def set_tsk_need_resched_def time_slice_expired_def)


text \<open>
  Claim C4, as the source has it. \<^verbatim>\<open>sched_fork\<close> for a child \<open>p\<close>, other than the
  forking task, whose policy is not \<^verbatim>\<open>SCHED_FIFO\<close>: if the parent's
  \<^verbatim>\<open>rq_time_slice\<close> is at least \<open>2 * RESCHED_US\<close> it is halved, the child's
  \<^verbatim>\<open>time_slice\<close> is the halved value, and the child's deadline and the parent's
  need-resched flag are left as they were; otherwise the parent's \<^verbatim>\<open>rq_time_slice\<close>
  becomes 0, the parent is marked need-resched, and the child gets the fresh timeslice
  \<^verbatim>\<open>timeslice()\<close> and the deadline \<open>grq.niffies + prio_deadline_diff(user_prio)\<close> of
  \<^verbatim>\<open>time_slice_expired\<close>. In both cases the parent's own deadline, in its task and in
  its runqueue, is left as it was.
\<close>

theorem sched_fork_timeslice:
  assumes "policy (tasks s p) \<noteq> SCHED_FIFO" and "p \<noteq> current"
  shows "(rq_time_slice (runqueues s (task_rq s current)) \<ge> 2 * RESCHED_US \<longrightarrow>
            rq_time_slice (runqueues (sched_fork s this_cpu current p) (task_rq s current)) =
              rq_time_slice (runqueues s (task_rq s current)) div 2 \<and>
            time_slice (tasks (sched_fork s this_cpu current p) p) =
              rq_time_slice (runqueues s (task_rq s current)) div 2 \<and>
            deadline (tasks (sched_fork s this_cpu current p) p) = deadline (tasks s p) \<and>
            need_resched (tasks (sched_fork s this_cpu current p) current) =
              need_resched (tasks s current)) \<and>
         (rq_time_slice (runqueues s (task_rq s current)) < 2 * RESCHED_US \<longrightarrow>
            rq_time_slice (runqueues (sched_fork s this_cpu current p) (task_rq s current)) = 0 \<and>
            need_resched (tasks (sched_fork s this_cpu current p) current) \<and>
            time_slice (tasks (sched_fork s this_cpu current p) p) = timeslice s \<and>
            deadline (tasks (sched_fork s this_cpu current p) p) =
              niffies (grq s) +
              prio_deadline_diff s
                (USER_PRIO s (static_prio (tasks (sched_fork s this_cpu current p) p)))) \<and>
         deadline (tasks (sched_fork s this_cpu current p) current) = deadline (tasks s current) \<and>
         rq_deadline (runqueues (sched_fork s this_cpu current p) (task_rq s current)) =
           rq_deadline (runqueues s (task_rq s current))"
proof -
  define s1 where "s1 = sched_fork_setup s this_cpu current p"
  note fr = sched_fork_setup_frame [where s = s and this_cpu = this_cpu and current = current
      and p = p, folded s1_def]
  have cur: "tasks s1 current = tasks s current"
    using assms(2) fr(6) [of current] by simp
  have rq: "task_rq s1 current = task_rq s current"
    by (simp add: task_rq_def cur)
  have pol: "policy (tasks s1 p) \<noteq> SCHED_FIFO"
    unfolding s1_def using assms(1) by (rule sched_fork_setup_policy)
  have sf: "sched_fork s this_cpu current p = sched_fork_share s1 current p"
    using pol by (simp add: sched_fork_def s1_def)
  have ts: "timeslice s1 = timeslice s"
    by (simp add: timeslice_def fr)
  have pd: "prio_deadline_diff s1 x = prio_deadline_diff s x" for x
    by (simp add: prio_deadline_diff_def fr)
  have up: "USER_PRIO s1 x = USER_PRIO s x" for x
    by (simp add: USER_PRIO_def fr)
  have halve: ?thesis if h: "rq_time_slice (runqueues s (task_rq s current)) \<ge> 2 * RESCHED_US"
  proof -
    from h have h1: "rq_time_slice (runqueues s1 (task_rq s1 current)) \<ge> 2 * RESCHED_US"
      by (simp add: fr rq)
    note a = sched_fork_share_halve [OF h1 assms(2)]
    from a h show ?thesis
      by (simp add: sf fr rq cur sched_fork_share_rq_deadline)
  qed
  have refill: ?thesis if h: "rq_time_slice (runqueues s (task_rq s current)) < 2 * RESCHED_US"
  proof -
    from h have h1: "rq_time_slice (runqueues s1 (task_rq s1 current)) < 2 * RESCHED_US"
      by (simp add: fr rq)
    note a = sched_fork_share_refill [OF h1 assms(2)]
    from a h show ?thesis
      by (simp add: sf fr rq cur ts pd up sched_fork_share_rq_deadline)
  qed
  show ?thesis
    using halve refill by linarith
qed

lemma ex_fork_hyps:
  "policy (tasks (ex_fork_state ts) 2) \<noteq> SCHED_FIFO"
  "task_rq (ex_fork_state ts) (Suc 0) = 0"
  "rq_time_slice (runqueues (ex_fork_state ts) 0) = ts"
  "deadline (tasks (ex_fork_state ts) 2) = 1000"
  "deadline (tasks (ex_fork_state ts) (Suc 0)) = 1000"
  "rq_deadline (runqueues (ex_fork_state ts) 0) = 1000"
  "need_resched (tasks (ex_fork_state ts) (Suc 0)) = False"
  by (simp_all add: ex_fork_state_def ex_state_def ex_task_def ex_rq_def task_rq_def task_cpu_def)

theorem sched_fork_timeslice_witness:
  "policy (tasks (ex_fork_state 5000) 2) \<noteq> SCHED_FIFO \<and> (2::nat) \<noteq> 1 \<and>
   rq_time_slice (runqueues (ex_fork_state 5000) (task_rq (ex_fork_state 5000) 1)) = 5000 \<and>
   rq_time_slice (runqueues (sched_fork (ex_fork_state 5000) 0 1 2) 0) = 2500 \<and>
   time_slice (tasks (sched_fork (ex_fork_state 5000) 0 1 2) 2) = 2500 \<and>
   deadline (tasks (sched_fork (ex_fork_state 5000) 0 1 2) 2) = 1000 \<and>
   rq_time_slice (runqueues (ex_fork_state 150) (task_rq (ex_fork_state 150) 1)) = 150 \<and>
   rq_time_slice (runqueues (sched_fork (ex_fork_state 150) 0 1 2) 0) = 0 \<and>
   need_resched (tasks (sched_fork (ex_fork_state 150) 0 1 2) 1) \<and>
   time_slice (tasks (sched_fork (ex_fork_state 150) 0 1 2) 2) = 6144"
proof -
  have ts: "timeslice (ex_fork_state 150) = 6144"
    by (simp add: timeslice_def MS_TO_US_def ex_fork_state_def ex_state_def wrap32_id)
  from sched_fork_timeslice [of "ex_fork_state 5000" 2 1 0]
    sched_fork_timeslice [of "ex_fork_state 150" 2 1 0] ts
  show ?thesis
    by (simp add: ex_fork_hyps RESCHED_US_def)
qed

text \<open>
  The parent has 5000 us left and deadline 1000, as has its copy, the child. After
  \<^verbatim>\<open>sched_fork\<close> both have 2500 us and the child's deadline is still 1000: it is not
  earlier than the parent's.
\<close>

theorem sched_fork_timeslice_counterexample:
  "policy (tasks (ex_fork_state 5000) 2) \<noteq> SCHED_FIFO \<and>
   rq_time_slice (runqueues (ex_fork_state 5000) (task_rq (ex_fork_state 5000) 1)) = 5000 \<and>
   rq_time_slice (runqueues (sched_fork (ex_fork_state 5000) 0 1 2) 0) = 2500 \<and>
   time_slice (tasks (sched_fork (ex_fork_state 5000) 0 1 2) 2) = 2500 \<and>
   deadline (tasks (sched_fork (ex_fork_state 5000) 0 1 2) 2) = 1000 \<and>
   deadline (tasks (sched_fork (ex_fork_state 5000) 0 1 2) 1) = 1000 \<and>
   rq_deadline (runqueues (sched_fork (ex_fork_state 5000) 0 1 2) 0) = 1000 \<and>
   \<not> deadline (tasks (sched_fork (ex_fork_state 5000) 0 1 2) 2) <
       deadline (tasks (sched_fork (ex_fork_state 5000) 0 1 2) 1) \<and>
   \<not> deadline (tasks (sched_fork (ex_fork_state 5000) 0 1 2) 2) <
       rq_deadline (runqueues (sched_fork (ex_fork_state 5000) 0 1 2) 0)"
proof -
  have a: "sched_fork (ex_fork_state 5000) 0 (Suc 0) 2 =
           sched_fork_share (sched_fork_setup (ex_fork_state 5000) 0 (Suc 0) 2) (Suc 0) 2"
    using sched_fork_setup_policy [of "ex_fork_state 5000" 2 0 "Suc 0", OF ex_fork_hyps(1)]
    by (simp add: sched_fork_def)
  have b: "task_rq (sched_fork_setup (ex_fork_state 5000) 0 (Suc 0) 2) (Suc 0) = 0"
    by (simp add: task_rq_def sched_fork_setup_frame ex_fork_hyps [unfolded task_rq_def])
  have c: "rq_time_slice (runqueues (sched_fork_setup (ex_fork_state 5000) 0 (Suc 0) 2)
             (task_rq (sched_fork_setup (ex_fork_state 5000) 0 (Suc 0) 2) (Suc 0))) \<ge> 2 * RESCHED_US"
    by (simp add: b sched_fork_setup_frame ex_fork_hyps RESCHED_US_def)
  have d: "(2::nat) \<noteq> Suc 0" by simp
  note h = sched_fork_share_halve [OF c d]
  show ?thesis
    using h by (simp add: a b sched_fork_setup_frame ex_fork_hyps sched_fork_share_rq_deadline)
qed

subsection \<open>Selecting a realtime task\<close>

lemma find_next_bit_ge: "off \<le> sz \<Longrightarrow> off \<le> find_next_bit bm sz off"
proof (induction bm sz off rule: find_next_bit.induct)
  case (1 bm sz off)
  show ?case
  proof (cases "off \<ge> sz \<or> bm off")
    case True
    with "1.prems" show ?thesis by (subst find_next_bit.simps) auto
  next
    case False
    then have "off + 1 \<le> find_next_bit bm sz (off + 1)"
      using "1.IH" by simp
    with False show ?thesis by (subst find_next_bit.simps) simp
  qed
qed

lemma edt_scan_rt:
  assumes "idx < MAX_RT_PRIO s"
  shows "edt_scan s r idl idx ps acc =
         (case find (\<lambda>p. cpu_of s r \<in> cpus_allowed (tasks s p)) ps of
            None \<Rightarrow> Inr acc
          | Some p \<Rightarrow> Inl p)"
  using assms
proof (induction ps)
  case Nil
  then show ?case by (cases acc) simp
next
  case (Cons q ps)
  then show ?case by (cases acc) (simp add: needs_other_cpu_def)
qed

lemma find_next_bit_le:
  assumes "off \<le> b" and "b < sz" and "bm b"
  shows "find_next_bit bm sz off \<le> b"
  using assms
proof (induction bm sz off rule: find_next_bit.induct)
  case (1 bm sz off)
  show ?case
  proof (cases "bm off")
    case True
    with "1.prems" show ?thesis by (subst find_next_bit.simps) simp
  next
    case False
    with "1.prems" have ne: "off \<noteq> b" by auto
    with "1.prems" have "off + 1 \<le> b" by simp
    moreover from "1.prems" have "\<not> sz \<le> off" by simp
    ultimately have "find_next_bit bm sz (off + 1) \<le> b"
      using "1.IH" False "1.prems" by simp
    with False \<open>\<not> sz \<le> off\<close> show ?thesis by (subst find_next_bit.simps) simp
  qed
qed

lemma edt_retry_rt:
  assumes "b < MAX_RT_PRIO s" and "MAX_RT_PRIO s \<le> PRIO_LIMIT s"
    and "prio_bitmap (grq s) b"
    and "find (\<lambda>p. cpu_of s r \<in> cpus_allowed (tasks s p)) (queue (grq s) b) = Some p"
    and "\<forall>b'. idx0 \<le> b' \<and> b' < b \<longrightarrow>
           find (\<lambda>p. cpu_of s r \<in> cpus_allowed (tasks s p)) (queue (grq s) b') = None"
    and "idx0 \<le> b"
  shows "edt_retry s r idl idx0 (idl, ed) = (p, True)"
  using assms(5,6)
proof (induction "nat (b - idx0)" arbitrary: idx0 rule: less_induct)
  case less
  let ?i = "find_next_bit (prio_bitmap (grq s)) (PRIO_LIMIT s) idx0"
  have lim: "b < PRIO_LIMIT s" using assms(1,2) by simp
  have ge: "idx0 \<le> ?i"
    using less.prems(2) lim by (intro find_next_bit_ge) simp
  have le: "?i \<le> b"
    using less.prems(2) lim assms(3) by (rule find_next_bit_le)
  have rt: "?i < MAX_RT_PRIO s" using le assms(1) by simp
  show ?case
  proof (cases "?i = b")
    case True
    have "edt_scan s r idl b (queue (grq s) b) (idl, ed) = Inl p"
      using assms(1,4) by (simp add: edt_scan_rt)
    with True lim show ?thesis
      by (subst edt_retry.simps) simp
  next
    case False
    with le have lt: "?i < b" by simp
    with ge less.prems(1) have
      "find (\<lambda>p. cpu_of s r \<in> cpus_allowed (tasks s p)) (queue (grq s) ?i) = None"
      by simp
    then have sc: "edt_scan s r idl ?i (queue (grq s) ?i) (idl, ed) = Inr (idl, ed)"
      using rt by (simp add: edt_scan_rt)
    have "edt_retry s r idl (?i + 1) (idl, ed) = (p, True)"
    proof (rule less.hyps)
      show "nat (b - (?i + 1)) < nat (b - idx0)" using lt ge by simp
      show "\<forall>b'. ?i + 1 \<le> b' \<and> b' < b \<longrightarrow>
           find (\<lambda>p. cpu_of s r \<in> cpus_allowed (tasks s p)) (queue (grq s) b') = None"
        using less.prems(1) ge by simp
      show "?i + 1 \<le> b" using lt by simp
    qed
    with sc lt lim show ?thesis
      by (subst edt_retry.simps) simp
  qed
qed


lemma least_band:
  assumes "\<exists>b::int. 0 \<le> b \<and> P b"
  shows "\<exists>b::int. 0 \<le> b \<and> P b \<and> (\<forall>b'. 0 \<le> b' \<and> b' < b \<longrightarrow> \<not> P b')"
proof -
  from assms obtain b0 :: int where b0: "0 \<le> b0" "P b0" by blast
  then have "\<exists>n. P (int n)" by (intro exI [of _ "nat b0"]) simp
  then obtain n where n: "P (int n)" "\<forall>m < n. \<not> P (int m)"
    using exists_least_iff [of "\<lambda>n. P (int n)"] by blast
  have "\<not> P b'" if "0 \<le> b'" "b' < int n" for b'
  proof -
    from that have "nat b' < n" by simp
    with n(2) have "\<not> P (int (nat b'))" by blast
    with that(1) show ?thesis by simp
  qed
  with n(1) show ?thesis by (intro exI [of _ "int n"]) simp
qed

lemma take_task_unlinks: "p \<notin> set (queue (grq (take_task s r p)) b)"
  by (simp add: take_task_def dec_qnr_def dequeue_task_def set_task_cpu_def Let_def)

text \<open>
  The queue operations keep the bit of every non-empty band set, which is what the
  selector relies on when it walks the bitmap.
\<close>

lemma enqueue_task_keeps_bits:
  assumes "\<forall>b. queue (grq s) b \<noteq> [] \<longrightarrow> prio_bitmap (grq s) b"
  shows "\<forall>b. queue (grq (enqueue_task s p)) b \<noteq> [] \<longrightarrow> prio_bitmap (grq (enqueue_task s p)) b"
  using assms by (simp add: enqueue_task_def Let_def)

lemma dequeue_task_keeps_bits:
  assumes "\<forall>b. queue (grq s) b \<noteq> [] \<longrightarrow> prio_bitmap (grq s) b"
  shows "\<forall>b. queue (grq (dequeue_task s p)) b \<noteq> [] \<longrightarrow> prio_bitmap (grq (dequeue_task s p)) b"
proof (intro allI impI)
  fix b
  assume ne: "queue (grq (dequeue_task s p)) b \<noteq> []"
  then have "removeAll p (queue (grq s) b) \<noteq> []"
    by (simp add: dequeue_task_def Let_def)
  then have "queue (grq s) b \<noteq> []" by auto
  with assms have "prio_bitmap (grq s) b" by simp
  with \<open>removeAll p (queue (grq s) b) \<noteq> []\<close> show "prio_bitmap (grq (dequeue_task s p)) b"
    by (auto simp add: dequeue_task_def Let_def)
qed

text \<open>
  Claim C1. Let the realtime bands lie below \<open>PRIO_LIMIT\<close> and every non-empty
  realtime band have its bit set in \<^verbatim>\<open>grq.prio_bitmap\<close>. If some task queued in a
  realtime band (index below \<open>MAX_RT_PRIO\<close>) may run on the CPU of \<open>rq\<close>, then
  \<^verbatim>\<open>earliest_deadline_task(rq, idle)\<close> returns the first task in list order that may
  run on that CPU, from the lowest-indexed realtime band that holds one, and the state
  it leaves is that of \<^verbatim>\<open>take_task\<close> on the chosen task, which is then on no band.
\<close>

theorem earliest_deadline_task_rt:
  assumes "MAX_RT_PRIO s \<le> PRIO_LIMIT s"
    and "\<forall>b. 0 \<le> b \<and> b < MAX_RT_PRIO s \<and> queue (grq s) b \<noteq> [] \<longrightarrow> prio_bitmap (grq s) b"
    and "\<exists>b p. 0 \<le> b \<and> b < MAX_RT_PRIO s \<and> p \<in> set (queue (grq s) b) \<and>
               cpu_of s r \<in> cpus_allowed (tasks s p)"
  shows "\<exists>b p. 0 \<le> b \<and> b < MAX_RT_PRIO s \<and>
           find (\<lambda>p. cpu_of s r \<in> cpus_allowed (tasks s p)) (queue (grq s) b) = Some p \<and>
           (\<forall>b'. 0 \<le> b' \<and> b' < b \<longrightarrow>
              find (\<lambda>p. cpu_of s r \<in> cpus_allowed (tasks s p)) (queue (grq s) b') = None) \<and>
           earliest_deadline_task s r idl = (p, take_task s r p) \<and>
           (\<forall>b'. p \<notin> set (queue (grq (take_task s r p)) b'))"
proof -
  let ?ok = "\<lambda>p. cpu_of s r \<in> cpus_allowed (tasks s p)"
  let ?P = "\<lambda>b. b < MAX_RT_PRIO s \<and> find ?ok (queue (grq s) b) \<noteq> None"
  from assms(3) have "\<exists>b. 0 \<le> b \<and> ?P b"
    by (auto simp add: find_None_iff)
  then obtain b where b: "0 \<le> b" "?P b" "\<forall>b'. 0 \<le> b' \<and> b' < b \<longrightarrow> \<not> ?P b'"
    using least_band [of ?P] by blast
  from b(2) obtain p where p: "find ?ok (queue (grq s) b) = Some p" by auto
  have none: "\<forall>b'. 0 \<le> b' \<and> b' < b \<longrightarrow> find ?ok (queue (grq s) b') = None"
    using b(2,3) by auto
  from p have "queue (grq s) b \<noteq> []" by auto
  with assms(2) b have bit: "prio_bitmap (grq s) b" by simp
  have "edt_retry s r idl 0 (idl, 0) = (p, True)"
    using b(2) assms(1) bit p none b(1) by (intro edt_retry_rt) simp_all
  then have "earliest_deadline_task s r idl = (p, take_task s r p)"
    by (simp add: earliest_deadline_task_def)
  with b p none show ?thesis
    using take_task_unlinks by blast
qed

theorem earliest_deadline_task_rt_witness:
  "MAX_RT_PRIO ex_rt_state \<le> PRIO_LIMIT ex_rt_state \<and>
   4 \<in> set (queue (grq ex_rt_state) 10) \<and>
   cpu_of ex_rt_state 0 \<in> cpus_allowed (tasks ex_rt_state 4) \<and>
   fst (earliest_deadline_task ex_rt_state 0 0) = 4 \<and>
   queue (grq (snd (earliest_deadline_task ex_rt_state 0 0))) 10 = [3] \<and>
   queue (grq (snd (earliest_deadline_task ex_rt_state 0 0))) 5 = [5] \<and>
   qnr (grq (snd (earliest_deadline_task ex_rt_state 0 0))) = 3 \<and>
   cpu (tasks (snd (earliest_deadline_task ex_rt_state 0 0)) 4) = 0"
proof -
  have h1: "MAX_RT_PRIO ex_rt_state \<le> PRIO_LIMIT ex_rt_state"
    by (simp add: ex_rt_state_def ex_state_def)
  have h2: "\<forall>b. 0 \<le> b \<and> b < MAX_RT_PRIO ex_rt_state \<and> queue (grq ex_rt_state) b \<noteq> []
              \<longrightarrow> prio_bitmap (grq ex_rt_state) b"
    by (simp add: ex_rt_state_def ex_state_def)
  have c: "cpu_of ex_rt_state 0 = 0"
    by (simp add: cpu_of_def ex_rt_state_def ex_state_def ex_rq_def)
  have q: "4 \<in> set (queue (grq ex_rt_state) 10)"
    by (simp add: ex_rt_state_def)
  have a: "cpu_of ex_rt_state 0 \<in> cpus_allowed (tasks ex_rt_state 4)"
    by (simp add: c) (simp add: ex_rt_state_def ex_task_def)
  have h3: "\<exists>b p. 0 \<le> b \<and> b < MAX_RT_PRIO ex_rt_state \<and> p \<in> set (queue (grq ex_rt_state) b) \<and>
               cpu_of ex_rt_state 0 \<in> cpus_allowed (tasks ex_rt_state p)"
    using q a by (intro exI [of _ 10] exI [of _ 4]) (simp add: ex_rt_state_def ex_state_def)
  from earliest_deadline_task_rt [OF h1 h2 h3, of 0]
  obtain b p where bp: "0 \<le> b" "b < MAX_RT_PRIO ex_rt_state"
    "find (\<lambda>p. cpu_of ex_rt_state 0 \<in> cpus_allowed (tasks ex_rt_state p))
       (queue (grq ex_rt_state) b) = Some p"
    "earliest_deadline_task ex_rt_state 0 0 = (p, take_task ex_rt_state 0 p)"
    by blast
  from bp(2) have "b < 101"
    by (simp add: ex_rt_state_def ex_state_def)
  with bp(3) have "p = 4"
    unfolding c by (simp add: ex_rt_state_def ex_task_def split: if_splits)
  with bp(4) have e: "earliest_deadline_task ex_rt_state 0 0 = (4, take_task ex_rt_state 0 4)"
    by simp
  have t: "queue (grq (take_task ex_rt_state 0 4)) 10 = [3]"
    "queue (grq (take_task ex_rt_state 0 4)) 5 = [5]"
    "qnr (grq (take_task ex_rt_state 0 4)) = 3"
    "cpu (tasks (take_task ex_rt_state 0 4) 4) = 0"
    by (simp_all add: take_task_def dec_qnr_def dequeue_task_def set_task_cpu_def Let_def c)
       (simp_all add: ex_rt_state_def ex_grq_def)
  show ?thesis
    using h1 q a e t by simp
qed

subsection \<open>The clock\<close>

lemma niffy_diff_clamped:
  "niffy_diff s nd jd =
     (if nd < 1 \<or> nd > uint (word_of_int (JIFFIES_TO_NS s (wrap32 (jd + 1))) :: ulong) then 0
      else nd)"
  by (simp add: niffy_diff_def US_TO_NS_def Let_def)

lemma niffy_diff_range: "0 \<le> niffy_diff s nd jd \<and> niffy_diff s nd jd < 2 ^ 32"
proof -
  have "uint (word_of_int (JIFFIES_TO_NS s (wrap32 (jd + 1))) :: ulong) < 2 ^ 32"
    using uint_bounded [of "word_of_int (JIFFIES_TO_NS s (wrap32 (jd + 1))) :: ulong"] by simp
  then show ?thesis
    by (auto simp add: niffy_diff_clamped)
qed

text \<open>
  \<^verbatim>\<open>update_clocks\<close> adds a delta within \<open>0 .. 2^32 - 1\<close> to \<^verbatim>\<open>grq.niffies\<close>, so the
  counter does not decrease as long as it stays clear of the end of its 64 bits.
\<close>

lemma update_clocks_niffies:
  "\<exists>d. 0 \<le> d \<and> d < 2 ^ 32 \<and>
       niffies (grq (update_clocks s c)) = niffies (grq s) + word_of_int d"
proof -
  obtain d where d: "niffies (grq (update_clocks s c)) = niffies (grq s) + word_of_int d"
    and "\<exists>nd jd s'. d = niffy_diff s' nd jd"
    by (auto simp add: update_clocks_def update_rq_clock_def Let_def)
  with niffy_diff_range show ?thesis by blast
qed

lemma update_clocks_niffies_mono:
  assumes "unat (niffies (grq s)) + 2 ^ 32 \<le> 2 ^ 64"
  shows "niffies (grq s) \<le> niffies (grq (update_clocks s c))"
proof -
  from update_clocks_niffies [of s c] obtain d where d: "0 \<le> d" "d < 2 ^ 32"
    and n: "niffies (grq (update_clocks s c)) = niffies (grq s) + word_of_int d"
    by blast
  have u: "unat (word_of_int d :: u64) = nat d"
    using d by (simp add: unat_eq_nat_uint uint_word_of_int take_bit_int_eq_self)
  have "unat (niffies (grq s)) + unat (word_of_int d :: u64) < 2 ^ 64"
    using assms d u by simp
  then have "unat (niffies (grq s) + word_of_int d) = unat (niffies (grq s)) + nat d"
    using u by (simp add: unat_add_lem [THEN iffD1])
  then show ?thesis
    by (simp add: n word_le_nat_alt)
qed

text \<open>
  Claim C5 has \<^verbatim>\<open>niffy_diff\<close> force a delta it does not trust to 1 us, as the comment
  above the function does. The source assigns \<^verbatim>\<open>US_TO_NS(1)\<close>, and \<^verbatim>\<open>US_TO_NS\<close> shifts
  right by 10 bits: the forced delta is 0. When the clock of CPU 0 has not moved since
  its last update, \<^verbatim>\<open>update_clocks\<close> leaves \<^verbatim>\<open>grq.niffies\<close> where it was.
\<close>

theorem update_clocks_clamp_adds_nothing:
  "US_TO_NS 1 = 0 \<and> niffy_diff ex_state 0 0 = 0 \<and>
   niffies (grq (update_clocks ex_state 0)) = niffies (grq ex_state)"
  by (simp add: US_TO_NS_def niffy_diff_clamped update_clocks_def update_rq_clock_def Let_def
      ex_state_def ex_rq_def ex_grq_def)


end
